theory Spec2Isabelle
  imports Complex_Main
begin

section \<open>The shooting-range playground (src/shooting-range/playground.ts)\<close>

text \<open>
  The class \<open>Playground\<close> owns the bullets and the targets of one game and advances
  them once per frame. The classes \<open>Gun\<close>, \<open>Bullet\<close>, \<open>Target\<close> and \<open>Stats\<close> are
  imported by the file and are not part of it; the model keeps of them the
  fields that \<open>playground.ts\<close> reads and writes.

  Conventions of the model:
  \<^item> a JavaScript number is a \<open>real\<close> (binary floating point is not modelled);
    array lengths and counters are \<open>nat\<close>;
  \<^item> an object held in an array is the list element at its index; the reference
    \<open>closestTarget\<close> is the index of the target it points to, and \<open>None\<close> stands for
    a reference that is \<open>null\<close> or \<open>undefined\<close> (the code only tests its truthiness);
  \<^item> \<open>gameOver\<close> is the truthiness of the value the code assigns to it:
    \<open>closest && ...\<close> is \<open>undefined\<close> or \<open>null\<close>, hence false, when there is no closest
    target;
  \<^item> reading a field of \<open>undefined\<close> (an array read past the end) raises
    \<open>TypeError\<close>;
  \<^item> calls that only render (\<open>draw\<close> of a gun, bullet, target or the statistics,
    \<open>clear\<close>, \<open>drawGameOver\<close>) do not change the state and are left out.
\<close>

subsection \<open>Data\<close>

text \<open>
  Modelled from the spec: the enumeration \<open>BulletStatus\<close> is declared in \<open>./bullet\<close>;
  \<open>playground.ts\<close> names its values \<open>Hit\<close> and \<open>Miss\<close>, the third is the status
  of a bullet in flight.
\<close>

datatype BulletStatus = InFlight | Hit | Miss

record Bullet =
  b_x :: real
  b_y :: real
  b_radius :: real
  b_status :: BulletStatus

record Target =
  t_x :: real
  t_y :: real
  t_width :: real
  t_height :: real
  t_hit :: bool

record Gun =
  g_x :: real
  g_y :: real
  g_width :: real
  g_height :: real

record Stats =
  s_x :: real
  s_y :: real
  s_fontSize :: real
  s_updates :: "(nat \<times> nat \<times> nat) list"

record Playground =
  width :: real
  height :: real
  gameOver :: bool
  gun :: Gun
  gunStep :: real
  bullets :: "Bullet list"
  bulletsLen :: nat
  bulletStep :: real
  targets :: "Target list"
  targetsLen :: nat
  closestTarget :: "nat option"
  stats :: Stats

datatype error = TypeError

subsection \<open>The collaborators\<close>

text \<open>
  Modelled from the spec: the constructors of \<open>Bullet\<close>, \<open>Target\<close>, \<open>Gun\<close> and
  \<open>Stats\<close> (classes imported from \<open>./bullet\<close>, \<open>./target\<close>, \<open>./gun\<close>, \<open>./stats\<close>) store
  the coordinates they are given; a new bullet is in flight, a new target is not
  hit.
\<close>

definition new_Bullet :: "real \<Rightarrow> real \<Rightarrow> real \<Rightarrow> Bullet" where
  "new_Bullet x y radius = \<lparr>b_x = x, b_y = y, b_radius = radius, b_status = InFlight\<rparr>"

definition new_Target :: "real \<Rightarrow> real \<Rightarrow> real \<Rightarrow> real \<Rightarrow> Target" where
  "new_Target x y w h = \<lparr>t_x = x, t_y = y, t_width = w, t_height = h, t_hit = False\<rparr>"

definition new_Gun :: "real \<Rightarrow> real \<Rightarrow> real \<Rightarrow> real \<Rightarrow> Gun" where
  "new_Gun x y w h = \<lparr>g_x = x, g_y = y, g_width = w, g_height = h\<rparr>"

definition new_Stats :: "real \<Rightarrow> real \<Rightarrow> real \<Rightarrow> Stats" where
  "new_Stats x y fontSize = \<lparr>s_x = x, s_y = y, s_fontSize = fontSize, s_updates = []\<rparr>"

text \<open>
  Modelled from the spec: \<open>Stats.update(fired, hit, miss)\<close> receives the three
  counts; the model records every call, the latest last.
\<close>

definition update_Stats :: "Stats \<Rightarrow> nat \<Rightarrow> nat \<Rightarrow> nat \<Rightarrow> Stats" where
  "update_Stats st fired hits miss = st\<lparr>s_updates := s_updates st @ [(fired, hits, miss)]\<rparr>"

text \<open>
  The hit test \<open>target.hitByBullet(bullet)\<close> and \<open>gun.moveTo(x)\<close> are opaque to the
  playground: the operations below take them as the parameters \<open>hbb\<close> and \<open>mv\<close>.
\<close>

type_synonym hitTest = "Target \<Rightarrow> Bullet \<Rightarrow> bool"
type_synonym gunMove = "Gun \<Rightarrow> real \<Rightarrow> Gun"

subsection \<open>Results and loops\<close>

definition seqE :: "error + 'a \<Rightarrow> ('a \<Rightarrow> error + 'b) \<Rightarrow> error + 'b" where
  "seqE m f = (case m of Inl e \<Rightarrow> Inl e | Inr a \<Rightarrow> f a)"

text \<open>\<open>for (let i = 0; i < n; ++i) body\<close> runs the body on \<open>[0..<n]\<close>; an exception ends it.\<close>

primrec forM :: "nat list \<Rightarrow> (nat \<Rightarrow> 'a \<Rightarrow> error + 'a) \<Rightarrow> 'a \<Rightarrow> error + 'a" where
  "forM [] f a = Inr a"
| "forM (i # is) f a = (case f i a of Inl e \<Rightarrow> Inl e | Inr a' \<Rightarrow> forM is f a')"

subsection \<open>Layout\<close>

text \<open>\<open>Math.round\<close> rounds to the nearest integer, a half upwards.\<close>

definition Math_round :: "real \<Rightarrow> real" where
  "Math_round x = of_int \<lfloor>x + 1 / 2\<rfloor>"

definition perOfNum :: "real \<Rightarrow> real \<Rightarrow> real" where
  "perOfNum per num = Math_round (per * num / 100)"

definition createStats :: "real \<Rightarrow> real \<Rightarrow> Stats" where
  "createStats w h =
     (let x = perOfNum 2 w;
          y = perOfNum 95 h;
          fontSize = perOfNum 2.5 h
      in new_Stats x y fontSize)"

definition createGun :: "real \<Rightarrow> Stats \<Rightarrow> Gun" where
  "createGun w st =
     (let width = perOfNum 6 w;
          height = perOfNum 6 w;
          x = Math_round ((w / 2) - (width / 2));
          y = Math_round (s_y st - s_fontSize st - height)
      in new_Gun x y width height)"

text \<open>
  The constructor sets the dimensions, the two steps, the statistics and the gun.
  It leaves \<open>gameOver\<close>, the two arrays, their counters and \<open>closestTarget\<close> unset;
  \<open>newGame\<close> assigns each of them before anything reads it, and the values given
  here only fill the record.
\<close>

definition constructor :: "real \<Rightarrow> real \<Rightarrow> Playground" where
  "constructor w h =
     (let st = createStats w h
      in \<lparr>width = w, height = h, gameOver = False, gun = createGun w st,
          gunStep = perOfNum 1.7 w,
          bullets = [], bulletsLen = 0, bulletStep = perOfNum 1 h,
          targets = [], targetsLen = 0, closestTarget = None, stats = st\<rparr>)"

subsection \<open>Spawning\<close>

definition createBullet :: "Playground \<Rightarrow> Playground" where
  "createBullet s =
     (let x = g_x (gun s) + g_width (gun s) / 2;
          y = g_y (gun s);
          radius = perOfNum 1 (width s);
          bs = bullets s @ [new_Bullet x y radius]
      in s\<lparr>bullets := bs, bulletsLen := length bs\<rparr>)"

text \<open>The body of the loop that shifts the old targets down.\<close>

definition shiftTarget :: "real \<Rightarrow> nat \<Rightarrow> Target list \<Rightarrow> error + Target list" where
  "shiftTarget gap i ts =
     (if i < length ts then
        (let target = ts ! i
         in if \<not> t_hit target
            then Inr (ts[i := target\<lparr>t_y := t_y target + t_height target + gap\<rparr>])
            else Inr ts)
      else Inl TypeError)"

text \<open>The loop that adds the new targets; the first argument counts the iterations left.\<close>

fun addTargets :: "nat \<Rightarrow> real \<Rightarrow> real \<Rightarrow> real \<Rightarrow> real \<Rightarrow> real \<Rightarrow> Target list \<Rightarrow> Target list" where
  "addTargets 0 x y w h gap ts = ts"
| "addTargets (Suc n) x y w h gap ts =
     addTargets n (x + (w + gap)) y w h gap (ts @ [new_Target x y w h])"

definition createTargets :: "Playground \<Rightarrow> error + Playground" where
  "createTargets s =
     (let targetsInRow = 12;
          gap = perOfNum 1.8 (width s);
          size = Math_round ((width s - gap) / real targetsInRow);
          x = gap;
          y = gap;
          w = size - gap;
          h = size - gap
      in seqE (forM [0..<targetsLen s] (shiftTarget gap) (targets s))
           (\<lambda>ts. let ts' = addTargets targetsInRow x y w h gap ts
                 in Inr (s\<lparr>targets := ts', targetsLen := length ts'\<rparr>)))"

subsection \<open>The per-frame advance\<close>

definition moveBullet :: "real \<Rightarrow> nat \<Rightarrow> Bullet list \<Rightarrow> error + Bullet list" where
  "moveBullet step i bs =
     (if i < length bs then
        (let bullet = bs ! i
         in if b_status bullet = Hit \<or> b_status bullet = Miss then Inr bs
            else if b_y bullet + b_radius bullet \<le> 0
            then Inr (bs[i := bullet\<lparr>b_status := Miss\<rparr>])
            else Inr (bs[i := bullet\<lparr>b_y := b_y bullet - step\<rparr>]))
      else Inl TypeError)"

definition drawBullets :: "Playground \<Rightarrow> error + Playground" where
  "drawBullets s =
     seqE (forM [0..<bulletsLen s] (moveBullet (bulletStep s)) (bullets s))
       (\<lambda>bs. Inr (s\<lparr>bullets := bs\<rparr>))"

text \<open>
  The inner loop of \<open>drawTargets\<close>: the index of the first bullet the target is
  hit by. A bullet read past the end of the array is \<open>undefined\<close>, and the hit test
  cannot read its position.
\<close>

primrec findHit :: "hitTest \<Rightarrow> Target \<Rightarrow> Bullet list \<Rightarrow> nat list \<Rightarrow> error + nat option" where
  "findHit hbb target bs [] = Inr None"
| "findHit hbb target bs (j # js) =
     (if j < length bs then
        (if hbb target (bs ! j) then Inr (Some j) else findHit hbb target bs js)
      else Inl TypeError)"

text \<open>
  The body of the outer loop, on the targets, the bullets and the local variable
  \<open>closestTarget\<close>.
\<close>

definition checkTarget ::
  "hitTest \<Rightarrow> nat \<Rightarrow> nat \<Rightarrow> Target list \<times> Bullet list \<times> nat option \<Rightarrow>
     error + Target list \<times> Bullet list \<times> nat option" where
  "checkTarget hbb n i st =
     (case st of (ts, bs, closest) \<Rightarrow>
        if i < length ts then
          (let target = ts ! i
           in if t_hit target then Inr (ts, bs, closest)
              else seqE (findHit hbb target bs [0..<n])
                (\<lambda>hitBullet. case hitBullet of
                    Some j \<Rightarrow>
                      Inr (ts[i := target\<lparr>t_hit := True\<rparr>],
                           bs[j := (bs ! j)\<lparr>b_status := Hit\<rparr>], closest)
                  | None \<Rightarrow>
                      (case closest of
                         None \<Rightarrow> Inl TypeError
                       | Some c \<Rightarrow>
                           if t_y target + t_height target > t_y (ts ! c) + t_height (ts ! c)
                           then Inr (ts, bs, Some i)
                           else Inr (ts, bs, closest))))
        else Inl TypeError)"

definition drawTargets :: "hitTest \<Rightarrow> Playground \<Rightarrow> error + Playground" where
  "drawTargets hbb s =
     (let closest0 = (if targets s = [] then None else Some 0)
      in seqE (forM [0..<targetsLen s] (checkTarget hbb (bulletsLen s))
                 (targets s, bullets s, closest0))
           (\<lambda>(ts, bs, closest).
               Inr (s\<lparr>targets := ts, bullets := bs, closestTarget := closest\<rparr>)))"

definition countStatus :: "Bullet list \<Rightarrow> nat \<Rightarrow> nat \<times> nat \<Rightarrow> error + nat \<times> nat" where
  "countStatus bs i hm =
     (case hm of (hits, miss) \<Rightarrow>
        if i < length bs then
          (let bulletStatus = b_status (bs ! i)
           in if bulletStatus = Hit then Inr (hits + 1, miss)
              else if bulletStatus = Miss then Inr (hits, miss + 1)
              else Inr (hits, miss))
        else Inl TypeError)"

definition drawStats :: "Playground \<Rightarrow> error + Playground" where
  "drawStats s =
     seqE (forM [0..<bulletsLen s] (countStatus (bullets s)) (0, 0))
       (\<lambda>(hits, miss).
           Inr (s\<lparr>stats := update_Stats (stats s) (bulletsLen s) hits miss\<rparr>))"

definition checkGameOver :: "Playground \<Rightarrow> Playground" where
  "checkGameOver s =
     s\<lparr>gameOver :=
         (case closestTarget s of
            None \<Rightarrow> False
          | Some c \<Rightarrow> t_y (targets s ! c) + t_height (targets s ! c) \<ge> g_y (gun s))\<rparr>"

definition draw :: "hitTest \<Rightarrow> Playground \<Rightarrow> error + Playground" where
  "draw hbb s =
     seqE (drawBullets s) (\<lambda>s1.
     seqE (drawTargets hbb s1) (\<lambda>s2.
     seqE (drawStats s2) (\<lambda>s3.
     Inr (checkGameOver s3))))"

subsection \<open>Session and controls\<close>

definition newGame :: "hitTest \<Rightarrow> Playground \<Rightarrow> error + Playground" where
  "newGame hbb s =
     (let s1 = s\<lparr>gameOver := False, bullets := [], bulletsLen := 0,
                 targets := [], targetsLen := 0, closestTarget := None,
                 stats := update_Stats (stats s) 0 0 0\<rparr>
      in seqE (createTargets s1) (draw hbb))"

definition moveGunRight :: "gunMove \<Rightarrow> Playground \<Rightarrow> Playground" where
  "moveGunRight mv s = s\<lparr>gun := mv (gun s) (g_x (gun s) + gunStep s)\<rparr>"

definition moveGunLeft :: "gunMove \<Rightarrow> Playground \<Rightarrow> Playground" where
  "moveGunLeft mv s = s\<lparr>gun := mv (gun s) (g_x (gun s) - gunStep s)\<rparr>"

text \<open>
  What the driver of the game does to a playground within one session: it asks
  for a frame, fires, adds a row of targets or moves the gun.
\<close>

datatype Event = Draw | CreateBullet | CreateTargets | MoveGunLeft | MoveGunRight

fun step :: "hitTest \<Rightarrow> gunMove \<Rightarrow> Event \<Rightarrow> Playground \<Rightarrow> error + Playground" where
  "step hbb mv Draw s = draw hbb s"
| "step hbb mv CreateBullet s = Inr (createBullet s)"
| "step hbb mv CreateTargets s = createTargets s"
| "step hbb mv MoveGunLeft s = Inr (moveGunLeft mv s)"
| "step hbb mv MoveGunRight s = Inr (moveGunRight mv s)"

primrec run :: "hitTest \<Rightarrow> gunMove \<Rightarrow> Event list \<Rightarrow> Playground \<Rightarrow> error + Playground" where
  "run hbb mv [] s = Inr s"
| "run hbb mv (e # es) s = seqE (step hbb mv e s) (run hbb mv es)"

text \<open>The cached counters agree with the arrays.\<close>

definition counters_ok :: "Playground \<Rightarrow> bool" where
  "counters_ok s \<longleftrightarrow>
     bulletsLen s = length (bullets s) \<and> targetsLen s = length (targets s)"

subsection \<open>Sample fields\<close>

text \<open>
  A field of 1200 by 800 with the gun and the statistics where the constructor puts
  them, holding the given bullets and targets.
\<close>

definition ex_gun :: Gun where
  "ex_gun = \<lparr>g_x = 564, g_y = 668, g_width = 72, g_height = 72\<rparr>"

definition ex_stats :: Stats where
  "ex_stats = \<lparr>s_x = 24, s_y = 760, s_fontSize = 20, s_updates = []\<rparr>"

definition ex_field :: "Bullet list \<Rightarrow> Target list \<Rightarrow> Playground" where
  "ex_field bs ts =
     \<lparr>width = 1200, height = 800, gameOver = False, gun = ex_gun, gunStep = 20,
      bullets = bs, bulletsLen = length bs, bulletStep = 8,
      targets = ts, targetsLen = length ts, closestTarget = None, stats = ex_stats\<rparr>"

definition ex_bullets :: "Bullet list" where
  "ex_bullets =
     [\<lparr>b_x = 600, b_y = - 12, b_radius = 12, b_status = InFlight\<rparr>,
      \<lparr>b_x = 600, b_y = 300, b_radius = 12, b_status = InFlight\<rparr>,
      \<lparr>b_x = 600, b_y = 120, b_radius = 12, b_status = Hit\<rparr>]"

definition ex_targets :: "Target list" where
  "ex_targets =
     [\<lparr>t_x = 22, t_y = 22, t_width = 76, t_height = 76, t_hit = True\<rparr>,
      \<lparr>t_x = 610, t_y = 610, t_width = 76, t_height = 76, t_hit = False\<rparr>]"

text \<open>The row of targets that \<open>newGame\<close> spawns on the field of 1200 by 800.\<close>

definition ex_row :: "Target list" where
  "ex_row = map (\<lambda>k. new_Target (22 + real k * 98) 22 76 76) [0..<12]"

subsection \<open>Sample collaborators\<close>

text \<open>
  A hit test for the samples: the square around the bullet meets the target. It
  does not look at the status of the bullet.
\<close>

definition overlaps :: hitTest where
  "overlaps t b \<longleftrightarrow>
     t_x t \<le> b_x b + b_radius b \<and> b_x b - b_radius b \<le> t_x t + t_width t \<and>
     t_y t \<le> b_y b + b_radius b \<and> b_y b - b_radius b \<le> t_y t + t_height t"

text \<open>A gun that moves to the position it is given.\<close>

definition setX :: gunMove where
  "setX g x = g\<lparr>g_x := x\<rparr>"

text \<open>A hit test that always succeeds.\<close>

definition alwaysHit :: hitTest where
  "alwaysHit t b \<longleftrightarrow> True"

subsection \<open>The loop invariant of the collision scan\<close>

text \<open>
  After the targets below \<open>i\<close> have been scanned, starting from the targets \<open>ts0\<close>
  and the bullets \<open>bs0\<close>: a target differs from what it was at most by a hit flag
  set in this scan, a bullet at most by the status \<open>Hit\<close> given to it after the hit
  test succeeded on it for a target that was not hit, and the local \<open>closestTarget\<close> is the first target or a
  scanned target that is not hit, its lower edge at least as low as the first
  target's and as that of every scanned target that is not hit.
\<close>

definition frame_inv ::
  "hitTest \<Rightarrow> Target list \<Rightarrow> Bullet list \<Rightarrow> nat \<Rightarrow> Target list \<times> Bullet list \<times> nat option \<Rightarrow> bool" where
  "frame_inv hbb ts0 bs0 i st \<longleftrightarrow>
     (case st of (ts, bs, closest) \<Rightarrow>
        length ts = length ts0 \<and> length bs = length bs0 \<and>
        (\<forall>k<length ts0. ts ! k = ts0 ! k \<or>
            (k < i \<and> \<not> t_hit (ts0 ! k) \<and> ts ! k = (ts0 ! k)\<lparr>t_hit := True\<rparr>)) \<and>
        (\<forall>j<length bs0. bs ! j = bs0 ! j \<or>
            (bs ! j = (bs0 ! j)\<lparr>b_status := Hit\<rparr> \<and> (\<exists>k<length ts0. \<not> t_hit (ts0 ! k) \<and> hbb (ts0 ! k) (bs0 ! j)))) \<and>
        (if ts0 = [] then closest = None
         else \<exists>c. closest = Some c \<and> c < length ts0 \<and>
                (c = 0 \<or> (c < i \<and> \<not> t_hit (ts ! c))) \<and>
                t_y (ts0 ! 0) + t_height (ts0 ! 0) \<le> t_y (ts0 ! c) + t_height (ts0 ! c) \<and>
                (\<forall>m<i. \<not> t_hit (ts ! m) \<longrightarrow>
                   t_y (ts0 ! m) + t_height (ts0 ! m) \<le> t_y (ts0 ! c) + t_height (ts0 ! c))))"

subsection \<open>How a session changes bullets and targets\<close>

text \<open>
  What can become of one bullet over a stretch of a session: it keeps \<open>x\<close> and
  \<open>radius\<close>, is never changed once \<open>Hit\<close>, and never returns to \<open>InFlight\<close>.
\<close>

definition bullet_rel :: "Bullet \<Rightarrow> Bullet \<Rightarrow> bool" where
  "bullet_rel b b' \<longleftrightarrow>
     b_x b' = b_x b \<and> b_radius b' = b_radius b \<and>
     (b_status b = Hit \<longrightarrow> b' = b) \<and>
     (b_status b \<noteq> InFlight \<longrightarrow> b_status b' \<noteq> InFlight)"

text \<open>
  What can become of one target while \<open>n\<close> rows are added with the gap \<open>gap\<close>: it
  keeps \<open>x\<close>, \<open>width\<close> and \<open>height\<close>, is never changed once hit, and while it is not
  hit it has moved down by \<open>n\<close> times its height plus the gap.
\<close>

definition target_rel :: "real \<Rightarrow> nat \<Rightarrow> Target \<Rightarrow> Target \<Rightarrow> bool" where
  "target_rel gap n t t' \<longleftrightarrow>
     t_x t' = t_x t \<and> t_width t' = t_width t \<and> t_height t' = t_height t \<and>
     (t_hit t \<longrightarrow> t' = t) \<and>
     (\<not> t_hit t' \<longrightarrow> t_y t' = t_y t + real n * (t_height t + gap))"

definition session_rel :: "hitTest \<Rightarrow> gunMove \<Rightarrow> nat \<Rightarrow> Playground \<Rightarrow> Playground \<Rightarrow> bool" where
  "session_rel hbb mv n s s' \<longleftrightarrow>
     counters_ok s' \<and> width s' = width s \<and>
     length (bullets s) \<le> length (bullets s') \<and>
     length (targets s) \<le> length (targets s') \<and>
     ((\<forall>g x. g_y (mv g x) = g_y g) \<longrightarrow> g_y (gun s') = g_y (gun s)) \<and>
     (\<forall>j<length (bullets s). bullet_rel (bullets s ! j) (bullets s' ! j)) \<and>
     (\<forall>i<length (targets s).
        target_rel (perOfNum 1.8 (width s)) n (targets s ! i) (targets s' ! i))"

section \<open>Results and loops\<close>

lemma seqE_Inr [simp]: "seqE (Inr a) f = f a"
  by (simp add: seqE_def)

lemma seqE_Inl [simp]: "seqE (Inl e) f = Inl e"
  by (simp add: seqE_def)

lemma forM_append: "forM (xs @ ys) f a = seqE (forM xs f a) (forM ys f)"
  by (induction xs arbitrary: a) (auto split: sum.splits)

lemma forM_upt_Suc: "forM [0..<Suc n] f a = seqE (forM [0..<n] f a) (f n)"
  by (cases "forM [0..<n] f a") (auto simp: forM_append split: sum.splits)

lemma forM_upt_inv:
  assumes "P 0 a"
    and "\<And>i b. i < n \<Longrightarrow> P i b \<Longrightarrow> \<exists>b'. f i b = Inr b' \<and> P (Suc i) b'"
  shows "\<exists>a'. forM [0..<n] f a = Inr a' \<and> P n a'"
  using assms(2)
proof (induction n)
  case 0
  then show ?case using assms(1) by simp
next
  case (Suc n)
  then obtain b where b: "forM [0..<n] f a = Inr b" "P n b"
    by (metis less_Suc_eq)
  from Suc.prems [of n b] b(2) obtain b' where "f n b = Inr b'" "P (Suc n) b'"
    by auto
  with b show ?case
    by (simp only: forM_upt_Suc seqE_Inr) simp
qed

section \<open>Bullet motion and spawning\<close>

lemma moveBullet_loop:
  assumes "n \<le> length bs"
  shows "\<exists>bs'. forM [0..<n] (moveBullet d) bs = Inr bs' \<and> length bs' = length bs \<and>
    (\<forall>k<length bs. bs' ! k =
       (if k < n \<and> b_status (bs ! k) = InFlight
        then (if b_y (bs ! k) + b_radius (bs ! k) \<le> 0
              then (bs ! k)\<lparr>b_status := Miss\<rparr>
              else (bs ! k)\<lparr>b_y := b_y (bs ! k) - d\<rparr>)
        else bs ! k))"
proof (rule forM_upt_inv [where P = "\<lambda>i bs'. length bs' = length bs \<and>
    (\<forall>k<length bs. bs' ! k =
       (if k < i \<and> b_status (bs ! k) = InFlight
        then (if b_y (bs ! k) + b_radius (bs ! k) \<le> 0
              then (bs ! k)\<lparr>b_status := Miss\<rparr>
              else (bs ! k)\<lparr>b_y := b_y (bs ! k) - d\<rparr>)
        else bs ! k))"])
  show "length bs = length bs \<and> (\<forall>k<length bs. bs ! k =
       (if k < 0 \<and> b_status (bs ! k) = InFlight
        then (if b_y (bs ! k) + b_radius (bs ! k) \<le> 0
              then (bs ! k)\<lparr>b_status := Miss\<rparr>
              else (bs ! k)\<lparr>b_y := b_y (bs ! k) - d\<rparr>)
        else bs ! k))"
    by simp
next
  fix i b
  assume i: "i < n" and inv: "length b = length bs \<and>
    (\<forall>k<length bs. b ! k =
       (if k < i \<and> b_status (bs ! k) = InFlight
        then (if b_y (bs ! k) + b_radius (bs ! k) \<le> 0
              then (bs ! k)\<lparr>b_status := Miss\<rparr>
              else (bs ! k)\<lparr>b_y := b_y (bs ! k) - d\<rparr>)
        else bs ! k))"
  from i assms have il: "i < length bs" by simp
  with inv have bi: "b ! i = bs ! i" by simp
  show "\<exists>b'. moveBullet d i b = Inr b' \<and> (length b' = length bs \<and>
    (\<forall>k<length bs. b' ! k =
       (if k < Suc i \<and> b_status (bs ! k) = InFlight
        then (if b_y (bs ! k) + b_radius (bs ! k) \<le> 0
              then (bs ! k)\<lparr>b_status := Miss\<rparr>
              else (bs ! k)\<lparr>b_y := b_y (bs ! k) - d\<rparr>)
        else bs ! k)))"
    using il inv bi
    by (cases "b_status (bs ! i)") (auto simp: moveBullet_def Let_def nth_list_update less_Suc_eq)
qed

lemma drawBullets_total:
  assumes "bulletsLen s \<le> length (bullets s)"
  shows "\<exists>bs'. drawBullets s = Inr (s\<lparr>bullets := bs'\<rparr>) \<and> length bs' = length (bullets s) \<and>
    (\<forall>k<length (bullets s). bs' ! k =
       (if k < bulletsLen s \<and> b_status (bullets s ! k) = InFlight
        then (if b_y (bullets s ! k) + b_radius (bullets s ! k) \<le> 0
              then (bullets s ! k)\<lparr>b_status := Miss\<rparr>
              else (bullets s ! k)\<lparr>b_y := b_y (bullets s ! k) - bulletStep s\<rparr>)
        else bullets s ! k))"
proof -
  from moveBullet_loop [OF assms, of "bulletStep s"] obtain bs' where
    "forM [0..<bulletsLen s] (moveBullet (bulletStep s)) (bullets s) = Inr bs'"
    "length bs' = length (bullets s)"
    "\<forall>k<length (bullets s). bs' ! k =
       (if k < bulletsLen s \<and> b_status (bullets s ! k) = InFlight
        then (if b_y (bullets s ! k) + b_radius (bullets s ! k) \<le> 0
              then (bullets s ! k)\<lparr>b_status := Miss\<rparr>
              else (bullets s ! k)\<lparr>b_y := b_y (bullets s ! k) - bulletStep s\<rparr>)
        else bullets s ! k)"
    by blast
  then show ?thesis
    by (intro exI [of _ bs']) (simp add: drawBullets_def)
qed

lemma shiftTarget_loop:
  assumes "n \<le> length ts"
  shows "\<exists>ts'. forM [0..<n] (shiftTarget gap) ts = Inr ts' \<and> length ts' = length ts \<and>
    (\<forall>k<length ts. ts' ! k =
       (if k < n \<and> \<not> t_hit (ts ! k)
        then (ts ! k)\<lparr>t_y := t_y (ts ! k) + t_height (ts ! k) + gap\<rparr>
        else ts ! k))"
proof (rule forM_upt_inv [where P = "\<lambda>i ts'. length ts' = length ts \<and>
    (\<forall>k<length ts. ts' ! k =
       (if k < i \<and> \<not> t_hit (ts ! k)
        then (ts ! k)\<lparr>t_y := t_y (ts ! k) + t_height (ts ! k) + gap\<rparr>
        else ts ! k))"])
  show "length ts = length ts \<and> (\<forall>k<length ts. ts ! k =
       (if k < 0 \<and> \<not> t_hit (ts ! k)
        then (ts ! k)\<lparr>t_y := t_y (ts ! k) + t_height (ts ! k) + gap\<rparr>
        else ts ! k))"
    by simp
next
  fix i b
  assume i: "i < n" and inv: "length b = length ts \<and>
    (\<forall>k<length ts. b ! k =
       (if k < i \<and> \<not> t_hit (ts ! k)
        then (ts ! k)\<lparr>t_y := t_y (ts ! k) + t_height (ts ! k) + gap\<rparr>
        else ts ! k))"
  from i assms have il: "i < length ts" by simp
  with inv have bi: "b ! i = ts ! i" by simp
  show "\<exists>b'. shiftTarget gap i b = Inr b' \<and> (length b' = length ts \<and>
    (\<forall>k<length ts. b' ! k =
       (if k < Suc i \<and> \<not> t_hit (ts ! k)
        then (ts ! k)\<lparr>t_y := t_y (ts ! k) + t_height (ts ! k) + gap\<rparr>
        else ts ! k)))"
    using il inv bi
    by (auto simp: shiftTarget_def Let_def nth_list_update less_Suc_eq)
qed

lemma addTargets_eq:
  "addTargets n x y w h gap ts =
     ts @ map (\<lambda>k. new_Target (x + real k * (w + gap)) y w h) [0..<n]"
proof (induction n arbitrary: x ts)
  case 0
  show ?case by simp
next
  case (Suc n)
  have "[0..<Suc n] = 0 # map Suc [0..<n]"
    by (simp add: upt_conv_Cons map_Suc_upt del: upt_Suc)
  then show ?case
    by (simp add: Suc.IH algebra_simps comp_def del: upt_Suc)
qed

lemma createTargets_total:
  assumes "targetsLen s \<le> length (targets s)"
  obtains ts' where
    "createTargets s =
       Inr (s\<lparr>targets := ts' @
                map (\<lambda>k. new_Target
                      (perOfNum 1.8 (width s) + real k *
                         (Math_round ((width s - perOfNum 1.8 (width s)) / 12)
                            - perOfNum 1.8 (width s) + perOfNum 1.8 (width s)))
                      (perOfNum 1.8 (width s))
                      (Math_round ((width s - perOfNum 1.8 (width s)) / 12) - perOfNum 1.8 (width s))
                      (Math_round ((width s - perOfNum 1.8 (width s)) / 12) - perOfNum 1.8 (width s)))
                  [0..<12],
              targetsLen := length (targets s) + 12\<rparr>)"
    "length ts' = length (targets s)"
    "\<forall>k<length (targets s). ts' ! k =
       (if k < targetsLen s \<and> \<not> t_hit (targets s ! k)
        then (targets s ! k)\<lparr>t_y := t_y (targets s ! k) + t_height (targets s ! k)
                                  + perOfNum 1.8 (width s)\<rparr>
        else targets s ! k)"
proof -
  from shiftTarget_loop [OF assms, of "perOfNum 1.8 (width s)"] obtain ts' where
    l: "forM [0..<targetsLen s] (shiftTarget (perOfNum 1.8 (width s))) (targets s) = Inr ts'"
    and n: "length ts' = length (targets s)"
    and k: "\<forall>k<length (targets s). ts' ! k =
       (if k < targetsLen s \<and> \<not> t_hit (targets s ! k)
        then (targets s ! k)\<lparr>t_y := t_y (targets s ! k) + t_height (targets s ! k)
                                  + perOfNum 1.8 (width s)\<rparr>
        else targets s ! k)"
    by blast
  have "createTargets s =
       Inr (s\<lparr>targets := ts' @
                map (\<lambda>k. new_Target
                      (perOfNum 1.8 (width s) + real k *
                         (Math_round ((width s - perOfNum 1.8 (width s)) / 12)
                            - perOfNum 1.8 (width s) + perOfNum 1.8 (width s)))
                      (perOfNum 1.8 (width s))
                      (Math_round ((width s - perOfNum 1.8 (width s)) / 12) - perOfNum 1.8 (width s))
                      (Math_round ((width s - perOfNum 1.8 (width s)) / 12) - perOfNum 1.8 (width s)))
                  [0..<12],
              targetsLen := length (targets s) + 12\<rparr>)"
    using l n by (simp add: createTargets_def Let_def addTargets_eq del: upt_Suc)
  then show thesis
    using n k by (rule that)
qed

section \<open>The collision scan\<close>

lemma findHit_total:
  "\<forall>j\<in>set js. j < length bs \<Longrightarrow>
     \<exists>r. findHit hbb t bs js = Inr r \<and>
       (case r of None \<Rightarrow> \<forall>j\<in>set js. \<not> hbb t (bs ! j)
        | Some j \<Rightarrow> j \<in> set js \<and> hbb t (bs ! j))"
  by (induction js) (auto split: option.splits)

lemma findHit_upt:
  assumes "n \<le> length bs"
  shows "(\<exists>j<n. hbb t (bs ! j) \<and> findHit hbb t bs [0..<n] = Inr (Some j)) \<or>
         findHit hbb t bs [0..<n] = Inr None"
proof -
  from assms have "\<forall>j\<in>set [0..<n]. j < length bs" by simp
  from findHit_total [OF this, of hbb t] show ?thesis
    by (auto split: option.splits)
qed

lemma frame_invD:
  assumes "frame_inv hbb ts0 bs0 i (ts, bs, c)"
  shows "length ts = length ts0" and "length bs = length bs0"
    and "\<forall>k<length ts0. ts ! k = ts0 ! k \<or>
            (k < i \<and> \<not> t_hit (ts0 ! k) \<and> ts ! k = (ts0 ! k)\<lparr>t_hit := True\<rparr>)"
    and "\<forall>j<length bs0. bs ! j = bs0 ! j \<or>
            (bs ! j = (bs0 ! j)\<lparr>b_status := Hit\<rparr> \<and> (\<exists>k<length ts0. \<not> t_hit (ts0 ! k) \<and> hbb (ts0 ! k) (bs0 ! j)))"
    and "ts0 = [] \<Longrightarrow> c = None"
    and "ts0 \<noteq> [] \<Longrightarrow> \<exists>k. c = Some k \<and> k < length ts0 \<and>
                (k = 0 \<or> (k < i \<and> \<not> t_hit (ts ! k))) \<and>
                t_y (ts0 ! 0) + t_height (ts0 ! 0) \<le> t_y (ts0 ! k) + t_height (ts0 ! k) \<and>
                (\<forall>m<i. \<not> t_hit (ts ! m) \<longrightarrow>
                   t_y (ts0 ! m) + t_height (ts0 ! m) \<le> t_y (ts0 ! k) + t_height (ts0 ! k))"
  using assms by (simp_all add: frame_inv_def)

lemma checkTarget_step:
  assumes inv: "frame_inv hbb ts0 bs0 i st" and i: "i < length ts0" and n: "n \<le> length bs0"
  shows "\<exists>st'. checkTarget hbb n i st = Inr st' \<and> frame_inv hbb ts0 bs0 (Suc i) st'"
proof -
  obtain ts bs closest where st: "st = (ts, bs, closest)"
    by (cases st) auto
  from i have ne: "ts0 \<noteq> []" by auto
  from inv st ne obtain c where
    len: "length ts = length ts0" "length bs = length bs0"
    and T: "\<forall>k<length ts0. ts ! k = ts0 ! k \<or>
            (k < i \<and> \<not> t_hit (ts0 ! k) \<and> ts ! k = (ts0 ! k)\<lparr>t_hit := True\<rparr>)"
    and B: "\<forall>j<length bs0. bs ! j = bs0 ! j \<or>
            (bs ! j = (bs0 ! j)\<lparr>b_status := Hit\<rparr> \<and> (\<exists>k<length ts0. \<not> t_hit (ts0 ! k) \<and> hbb (ts0 ! k) (bs0 ! j)))"
    and c: "closest = Some c" "c < length ts0" "c = 0 \<or> (c < i \<and> \<not> t_hit (ts ! c))"
      "t_y (ts0 ! 0) + t_height (ts0 ! 0) \<le> t_y (ts0 ! c) + t_height (ts0 ! c)"
    and M: "\<forall>m<i. \<not> t_hit (ts ! m) \<longrightarrow>
                   t_y (ts0 ! m) + t_height (ts0 ! m) \<le> t_y (ts0 ! c) + t_height (ts0 ! c)"
    by (auto simp: frame_inv_def)
  from T i have ti: "ts ! i = ts0 ! i" by auto
  from T c(2) have tc: "t_y (ts ! c) = t_y (ts0 ! c)" "t_height (ts ! c) = t_height (ts0 ! c)"
    by (metis Target.select_convs Target.surjective Target.update_convs(5))+
  show ?thesis
  proof (cases "t_hit (ts0 ! i)")
    case True
    then have "checkTarget hbb n i st = Inr st"
      using i len ti by (simp add: checkTarget_def st)
    moreover have "frame_inv hbb ts0 bs0 (Suc i) st"
      using len T B c M True ti ne
      by (auto simp: frame_inv_def st less_Suc_eq)
    ultimately show ?thesis by blast
  next
    case unhit: False
    from n len have "n \<le> length bs" by simp
    from findHit_upt [OF this, of hbb "ts0 ! i"] show ?thesis
    proof
      assume "\<exists>j<n. hbb (ts0 ! i) (bs ! j) \<and> findHit hbb (ts0 ! i) bs [0..<n] = Inr (Some j)"
      then obtain j where j: "j < n" "hbb (ts0 ! i) (bs ! j)"
        "findHit hbb (ts0 ! i) bs [0..<n] = Inr (Some j)"
        by blast
      let ?st' = "(ts[i := (ts0 ! i)\<lparr>t_hit := True\<rparr>], bs[j := (bs ! j)\<lparr>b_status := Hit\<rparr>], closest)"
      have r: "checkTarget hbb n i st = Inr ?st'"
        using i len ti unhit j by (simp add: checkTarget_def st)
      have T': "\<forall>k<length ts0. ts[i := (ts0 ! i)\<lparr>t_hit := True\<rparr>] ! k = ts0 ! k \<or>
            (k < Suc i \<and> \<not> t_hit (ts0 ! k) \<and>
             ts[i := (ts0 ! i)\<lparr>t_hit := True\<rparr>] ! k = (ts0 ! k)\<lparr>t_hit := True\<rparr>)"
        using T unhit i len by (auto simp: nth_list_update less_Suc_eq)
      have B': "\<forall>l<length bs0. bs[j := (bs ! j)\<lparr>b_status := Hit\<rparr>] ! l = bs0 ! l \<or>
            (bs[j := (bs ! j)\<lparr>b_status := Hit\<rparr>] ! l = (bs0 ! l)\<lparr>b_status := Hit\<rparr> \<and>
             (\<exists>k<length ts0. \<not> t_hit (ts0 ! k) \<and> hbb (ts0 ! k) (bs0 ! l)))"
      proof (intro allI impI)
        fix l assume l: "l < length bs0"
        show "bs[j := (bs ! j)\<lparr>b_status := Hit\<rparr>] ! l = bs0 ! l \<or>
            (bs[j := (bs ! j)\<lparr>b_status := Hit\<rparr>] ! l = (bs0 ! l)\<lparr>b_status := Hit\<rparr> \<and>
             (\<exists>k<length ts0. \<not> t_hit (ts0 ! k) \<and> hbb (ts0 ! k) (bs0 ! l)))"
        proof (cases "l = j")
          case True
          from B l True have "bs ! j = bs0 ! j \<or>
            (bs ! j = (bs0 ! j)\<lparr>b_status := Hit\<rparr> \<and> (\<exists>k<length ts0. \<not> t_hit (ts0 ! k) \<and> hbb (ts0 ! k) (bs0 ! j)))"
            by simp
          then show ?thesis
          proof
            assume e: "bs ! j = bs0 ! j"
            with j(2) i unhit
            have "\<exists>k<length ts0. \<not> t_hit (ts0 ! k) \<and> hbb (ts0 ! k) (bs0 ! j)"
              by auto
            with e True l len show ?thesis by simp
          next
            assume e: "bs ! j = (bs0 ! j)\<lparr>b_status := Hit\<rparr> \<and> (\<exists>k<length ts0. \<not> t_hit (ts0 ! k) \<and> hbb (ts0 ! k) (bs0 ! j))"
            with True l len show ?thesis by simp
          qed
        next
          case False
          with B l show ?thesis by simp
        qed
      qed
      have C': "\<exists>c'. closest = Some c' \<and> c' < length ts0 \<and>
                (c' = 0 \<or> (c' < Suc i \<and> \<not> t_hit (ts[i := (ts0 ! i)\<lparr>t_hit := True\<rparr>] ! c'))) \<and>
                t_y (ts0 ! 0) + t_height (ts0 ! 0) \<le> t_y (ts0 ! c') + t_height (ts0 ! c') \<and>
                (\<forall>m<Suc i. \<not> t_hit (ts[i := (ts0 ! i)\<lparr>t_hit := True\<rparr>] ! m) \<longrightarrow>
                   t_y (ts0 ! m) + t_height (ts0 ! m) \<le> t_y (ts0 ! c') + t_height (ts0 ! c'))"
        using c M i len by (intro exI [of _ c]) (auto simp: nth_list_update less_Suc_eq)
      have "frame_inv hbb ts0 bs0 (Suc i) ?st'"
        unfolding frame_inv_def using len T' B' C' ne by simp
      with r show ?thesis by blast
    next
      assume none: "findHit hbb (ts0 ! i) bs [0..<n] = Inr None"
      show ?thesis
      proof (cases "t_y (ts0 ! i) + t_height (ts0 ! i) > t_y (ts0 ! c) + t_height (ts0 ! c)")
        case True
        have r: "checkTarget hbb n i st = Inr (ts, bs, Some i)"
          using i len ti unhit none c(1) tc True by (simp add: checkTarget_def st)
        have T': "\<forall>k<length ts0. ts ! k = ts0 ! k \<or>
            (k < Suc i \<and> \<not> t_hit (ts0 ! k) \<and> ts ! k = (ts0 ! k)\<lparr>t_hit := True\<rparr>)"
          using T by (auto simp: less_Suc_eq)
        have C': "\<exists>c'. Some i = Some c' \<and> c' < length ts0 \<and>
                (c' = 0 \<or> (c' < Suc i \<and> \<not> t_hit (ts ! c'))) \<and>
                t_y (ts0 ! 0) + t_height (ts0 ! 0) \<le> t_y (ts0 ! c') + t_height (ts0 ! c') \<and>
                (\<forall>m<Suc i. \<not> t_hit (ts ! m) \<longrightarrow>
                   t_y (ts0 ! m) + t_height (ts0 ! m) \<le> t_y (ts0 ! c') + t_height (ts0 ! c'))"
          using c M i True ti unhit
          by (intro exI [of _ i]) (fastforce simp: less_Suc_eq)
        have "frame_inv hbb ts0 bs0 (Suc i) (ts, bs, Some i)"
          unfolding frame_inv_def using len T' B C' ne by simp
        with r show ?thesis by blast
      next
        case False
        have r: "checkTarget hbb n i st = Inr (ts, bs, closest)"
          using i len ti unhit none c(1) tc False by (simp add: checkTarget_def st)
        have T': "\<forall>k<length ts0. ts ! k = ts0 ! k \<or>
            (k < Suc i \<and> \<not> t_hit (ts0 ! k) \<and> ts ! k = (ts0 ! k)\<lparr>t_hit := True\<rparr>)"
          using T by (auto simp: less_Suc_eq)
        have C': "\<exists>c'. closest = Some c' \<and> c' < length ts0 \<and>
                (c' = 0 \<or> (c' < Suc i \<and> \<not> t_hit (ts ! c'))) \<and>
                t_y (ts0 ! 0) + t_height (ts0 ! 0) \<le> t_y (ts0 ! c') + t_height (ts0 ! c') \<and>
                (\<forall>m<Suc i. \<not> t_hit (ts ! m) \<longrightarrow>
                   t_y (ts0 ! m) + t_height (ts0 ! m) \<le> t_y (ts0 ! c') + t_height (ts0 ! c'))"
          using c M i False ti unhit
          by (intro exI [of _ c]) (fastforce simp: less_Suc_eq)
        have "frame_inv hbb ts0 bs0 (Suc i) (ts, bs, closest)"
          unfolding frame_inv_def using len T' B C' ne by simp
        with r show ?thesis by blast
      qed
    qed
  qed
qed

lemma drawTargets_total:
  assumes "counters_ok s"
  shows "\<exists>ts bs c. drawTargets hbb s = Inr (s\<lparr>targets := ts, bullets := bs, closestTarget := c\<rparr>) \<and>
           frame_inv hbb (targets s) (bullets s) (length (targets s)) (ts, bs, c)"
proof -
  let ?c0 = "if targets s = [] then None else Some 0"
  have "frame_inv hbb (targets s) (bullets s) 0 (targets s, bullets s, ?c0)"
    by (simp add: frame_inv_def)
  moreover have "\<And>i b. i < length (targets s) \<Longrightarrow> frame_inv hbb (targets s) (bullets s) i b \<Longrightarrow>
      \<exists>b'. checkTarget hbb (bulletsLen s) i b = Inr b' \<and>
        frame_inv hbb (targets s) (bullets s) (Suc i) b'"
    using assms by (intro checkTarget_step) (simp_all add: counters_ok_def)
  ultimately have "\<exists>a'. forM [0..<length (targets s)] (checkTarget hbb (bulletsLen s))
         (targets s, bullets s, ?c0) = Inr a' \<and>
       frame_inv hbb (targets s) (bullets s) (length (targets s)) a'"
    by (rule forM_upt_inv [where P = "frame_inv hbb (targets s) (bullets s)"])
  then obtain ts bs c where
    "forM [0..<length (targets s)] (checkTarget hbb (bulletsLen s))
         (targets s, bullets s, ?c0) = Inr (ts, bs, c)"
    "frame_inv hbb (targets s) (bullets s) (length (targets s)) (ts, bs, c)"
    by (metis prod_cases3)
  with assms show ?thesis
    by (intro exI [of _ ts] exI [of _ bs] exI [of _ c])
       (simp add: drawTargets_def counters_ok_def)
qed

section \<open>The frame\<close>

lemma countStatus_loop:
  assumes "n \<le> length bs"
  shows "forM [0..<n] (countStatus bs) (0, 0) =
     Inr (length (filter (\<lambda>b. b_status b = Hit) (take n bs)),
          length (filter (\<lambda>b. b_status b = Miss) (take n bs)))"
  using assms
proof (induction n)
  case 0
  show ?case by simp
next
  case (Suc n)
  then have "n < length bs" by simp
  then show ?case
    using Suc.IH
    by (simp add: forM_upt_Suc take_Suc_conv_app_nth countStatus_def del: upt_Suc)
qed

lemma drawStats_total:
  assumes "bulletsLen s = length (bullets s)"
  shows "drawStats s =
     Inr (s\<lparr>stats := update_Stats (stats s) (length (bullets s))
            (length (filter (\<lambda>b. b_status b = Hit) (bullets s)))
            (length (filter (\<lambda>b. b_status b = Miss) (bullets s)))\<rparr>)"
  using assms countStatus_loop [of "length (bullets s)" "bullets s"]
  by (simp add: drawStats_def)

lemma draw_total:
  assumes "counters_ok s"
  obtains bs1 ts bs c where
    "draw hbb s =
       Inr (s\<lparr>targets := ts, bullets := bs, closestTarget := c,
              stats := update_Stats (stats s) (length bs)
                (length (filter (\<lambda>b. b_status b = Hit) bs))
                (length (filter (\<lambda>b. b_status b = Miss) bs)),
              gameOver := (case c of None \<Rightarrow> False
                 | Some k \<Rightarrow> t_y (ts ! k) + t_height (ts ! k) \<ge> g_y (gun s))\<rparr>)"
    "length bs1 = length (bullets s)"
    "\<forall>k<length (bullets s). bs1 ! k =
       (if b_status (bullets s ! k) = InFlight
        then (if b_y (bullets s ! k) + b_radius (bullets s ! k) \<le> 0
              then (bullets s ! k)\<lparr>b_status := Miss\<rparr>
              else (bullets s ! k)\<lparr>b_y := b_y (bullets s ! k) - bulletStep s\<rparr>)
        else bullets s ! k)"
    "frame_inv hbb (targets s) bs1 (length (targets s)) (ts, bs, c)"
proof -
  from assms have le: "bulletsLen s \<le> length (bullets s)"
    by (simp add: counters_ok_def)
  from drawBullets_total [OF le] obtain bs1 where
    b1: "drawBullets s = Inr (s\<lparr>bullets := bs1\<rparr>)" "length bs1 = length (bullets s)"
    and b2: "\<forall>k<length (bullets s). bs1 ! k =
       (if k < bulletsLen s \<and> b_status (bullets s ! k) = InFlight
        then (if b_y (bullets s ! k) + b_radius (bullets s ! k) \<le> 0
              then (bullets s ! k)\<lparr>b_status := Miss\<rparr>
              else (bullets s ! k)\<lparr>b_y := b_y (bullets s ! k) - bulletStep s\<rparr>)
        else bullets s ! k)"
    by blast
  from assms b1(2) have ok1: "counters_ok (s\<lparr>bullets := bs1\<rparr>)"
    by (simp add: counters_ok_def)
  from drawTargets_total [OF ok1, of hbb] obtain ts bs c where
    t1: "drawTargets hbb (s\<lparr>bullets := bs1\<rparr>) =
           Inr (s\<lparr>targets := ts, bullets := bs, closestTarget := c\<rparr>)"
    and t2: "frame_inv hbb (targets s) bs1 (length (targets s)) (ts, bs, c)"
    by auto
  from t2 b1(2) assms have lb: "bulletsLen s = length bs"
    by (simp add: frame_inv_def counters_ok_def)
  have d: "draw hbb s =
       Inr (s\<lparr>targets := ts, bullets := bs, closestTarget := c,
              stats := update_Stats (stats s) (length bs)
                (length (filter (\<lambda>b. b_status b = Hit) bs))
                (length (filter (\<lambda>b. b_status b = Miss) bs)),
              gameOver := (case c of None \<Rightarrow> False
                 | Some k \<Rightarrow> t_y (ts ! k) + t_height (ts ! k) \<ge> g_y (gun s))\<rparr>)"
    using lb by (simp add: draw_def b1(1) t1 drawStats_total checkGameOver_def cong: option.case_cong)
  from b2 assms have k: "\<forall>k<length (bullets s). bs1 ! k =
       (if b_status (bullets s ! k) = InFlight
        then (if b_y (bullets s ! k) + b_radius (bullets s ! k) \<le> 0
              then (bullets s ! k)\<lparr>b_status := Miss\<rparr>
              else (bullets s ! k)\<lparr>b_y := b_y (bullets s ! k) - bulletStep s\<rparr>)
        else bullets s ! k)"
    by (simp add: counters_ok_def)
  show thesis
    by (rule that [OF d b1(2) k t2])
qed

lemma draw_closest:
  assumes ok: "counters_ok s"
  obtains s' where "draw hbb s = Inr s'" "counters_ok s'" "gun s' = gun s" "width s' = width s"
    "length (targets s') = length (targets s)"
    "\<forall>i<length (targets s). t_y (targets s' ! i) = t_y (targets s ! i) \<and>
        t_height (targets s' ! i) = t_height (targets s ! i) \<and>
        (t_hit (targets s ! i) \<longrightarrow> t_hit (targets s' ! i))"
    "targets s = [] \<Longrightarrow> closestTarget s' = None \<and> \<not> gameOver s'"
    "targets s \<noteq> [] \<Longrightarrow> \<exists>k. closestTarget s' = Some k \<and> k < length (targets s) \<and>
        (k = 0 \<or> \<not> t_hit (targets s' ! k)) \<and>
        gameOver s' = (g_y (gun s) \<le> t_y (targets s' ! k) + t_height (targets s' ! k)) \<and>
        t_y (targets s' ! 0) + t_height (targets s' ! 0)
          \<le> t_y (targets s' ! k) + t_height (targets s' ! k) \<and>
        (\<forall>m<length (targets s). \<not> t_hit (targets s' ! m) \<longrightarrow>
           t_y (targets s' ! m) + t_height (targets s' ! m)
             \<le> t_y (targets s' ! k) + t_height (targets s' ! k))"
proof -
  obtain bs1 ts bs c where
    d: "draw hbb s =
       Inr (s\<lparr>targets := ts, bullets := bs, closestTarget := c,
              stats := update_Stats (stats s) (length bs)
                (length (filter (\<lambda>b. b_status b = Hit) bs))
                (length (filter (\<lambda>b. b_status b = Miss) bs)),
              gameOver := (case c of None \<Rightarrow> False
                 | Some k \<Rightarrow> t_y (ts ! k) + t_height (ts ! k) \<ge> g_y (gun s))\<rparr>)"
      (is "_ = Inr ?s'")
    and l1: "length bs1 = length (bullets s)"
    and k1: "\<forall>k<length (bullets s). bs1 ! k =
       (if b_status (bullets s ! k) = InFlight
        then (if b_y (bullets s ! k) + b_radius (bullets s ! k) \<le> 0
              then (bullets s ! k)\<lparr>b_status := Miss\<rparr>
              else (bullets s ! k)\<lparr>b_y := b_y (bullets s ! k) - bulletStep s\<rparr>)
        else bullets s ! k)"
    and f: "frame_inv hbb (targets s) bs1 (length (targets s)) (ts, bs, c)"
    by (rule draw_total [OF ok, of hbb])
  note len = frame_invD(1,2) [OF f]
  note T = frame_invD(3) [OF f]
  have same: "\<forall>i<length (targets s). t_y (ts ! i) = t_y (targets s ! i) \<and>
        t_height (ts ! i) = t_height (targets s ! i) \<and>
        (t_hit (targets s ! i) \<longrightarrow> t_hit (ts ! i))"
  proof (intro allI impI)
    fix i assume "i < length (targets s)"
    with T have "ts ! i = targets s ! i \<or> ts ! i = (targets s ! i)\<lparr>t_hit := True\<rparr>"
      by blast
    then show "t_y (ts ! i) = t_y (targets s ! i) \<and>
        t_height (ts ! i) = t_height (targets s ! i) \<and>
        (t_hit (targets s ! i) \<longrightarrow> t_hit (ts ! i))"
      by auto
  qed
  have ok': "counters_ok ?s'"
    using ok len l1 by (simp add: counters_ok_def)
  have e: "targets s = [] \<Longrightarrow> closestTarget ?s' = None \<and> \<not> gameOver ?s'"
    using frame_invD(5) [OF f] by simp
  have n: "\<exists>k. closestTarget ?s' = Some k \<and> k < length (targets s) \<and>
        (k = 0 \<or> \<not> t_hit (targets ?s' ! k)) \<and>
        gameOver ?s' = (g_y (gun s) \<le> t_y (targets ?s' ! k) + t_height (targets ?s' ! k)) \<and>
        t_y (targets ?s' ! 0) + t_height (targets ?s' ! 0)
          \<le> t_y (targets ?s' ! k) + t_height (targets ?s' ! k) \<and>
        (\<forall>m<length (targets s). \<not> t_hit (targets ?s' ! m) \<longrightarrow>
           t_y (targets ?s' ! m) + t_height (targets ?s' ! m)
             \<le> t_y (targets ?s' ! k) + t_height (targets ?s' ! k))"
    if ne: "targets s \<noteq> []"
  proof -
    from frame_invD(6) [OF f ne] obtain k where
      k: "c = Some k" "k < length (targets s)" "k = 0 \<or> \<not> t_hit (ts ! k)"
        "t_y (targets s ! 0) + t_height (targets s ! 0)
           \<le> t_y (targets s ! k) + t_height (targets s ! k)"
        "\<forall>m<length (targets s). \<not> t_hit (ts ! m) \<longrightarrow>
           t_y (targets s ! m) + t_height (targets s ! m)
             \<le> t_y (targets s ! k) + t_height (targets s ! k)"
      by blast
    from ne have z: "0 < length (targets s)" by simp
    show ?thesis
      using k same z by (intro exI [of _ k]) simp
  qed
  show thesis
    using d ok' len(1) same e n by (intro that [of ?s']) simp_all
qed

lemma count_status_le:
  "length (filter (\<lambda>b. b_status b = Hit) bs) + length (filter (\<lambda>b. b_status b = Miss) bs)
     \<le> length bs"
  by (induction bs) auto

lemma count_status_eq:
  "\<forall>b\<in>set bs. b_status b \<noteq> InFlight \<Longrightarrow>
   length (filter (\<lambda>b. b_status b = Hit) bs) + length (filter (\<lambda>b. b_status b = Miss) bs)
     = length bs"
proof (induction bs)
  case Nil
  show ?case by simp
next
  case (Cons b bs)
  then show ?case by (cases "b_status b") auto
qed

section \<open>Sessions\<close>

lemma Bullet_hit_idem: "b_status b = Hit \<Longrightarrow> b\<lparr>b_status := Hit\<rparr> = b"
  by (cases b) simp

lemma bullet_rel_refl: "bullet_rel b b"
  by (simp add: bullet_rel_def)

lemma bullet_rel_trans:
  "bullet_rel b b' \<Longrightarrow> bullet_rel b' b'' \<Longrightarrow> bullet_rel b b''"
  unfolding bullet_rel_def by metis

lemma target_rel_refl: "target_rel gap 0 t t"
  by (simp add: target_rel_def)

lemma target_rel_trans:
  assumes "target_rel gap n t t'" and "target_rel gap m t' t''"
  shows "target_rel gap (n + m) t t''"
proof -
  have "t_hit t \<longrightarrow> t'' = t"
    using assms by (auto simp: target_rel_def)
  moreover have "\<not> t_hit t'' \<longrightarrow> t_y t'' = t_y t + real (n + m) * (t_height t + gap)"
  proof
    assume h: "\<not> t_hit t''"
    with assms(2) have h': "\<not> t_hit t'" by (auto simp: target_rel_def)
    from assms h h' have "t_y t' = t_y t + real n * (t_height t + gap)"
      "t_y t'' = t_y t' + real m * (t_height t + gap)"
      by (simp_all add: target_rel_def)
    then show "t_y t'' = t_y t + real (n + m) * (t_height t + gap)"
      by (simp add: algebra_simps)
  qed
  ultimately show ?thesis
    using assms by (simp add: target_rel_def)
qed

lemma session_rel_refl: "counters_ok s \<Longrightarrow> session_rel hbb mv 0 s s"
  by (simp add: session_rel_def bullet_rel_refl target_rel_refl)

lemma session_rel_trans:
  assumes a: "session_rel hbb mv n s s'" and b: "session_rel hbb mv m s' s''"
  shows "session_rel hbb mv (n + m) s s''"
proof -
  have w: "width s' = width s" using a by (simp add: session_rel_def)
  have "\<forall>j<length (bullets s). bullet_rel (bullets s ! j) (bullets s'' ! j)"
  proof (intro allI impI)
    fix j assume j: "j < length (bullets s)"
    with a have "j < length (bullets s')" by (simp add: session_rel_def)
    with a b j show "bullet_rel (bullets s ! j) (bullets s'' ! j)"
      by (auto simp: session_rel_def intro: bullet_rel_trans)
  qed
  moreover have "\<forall>i<length (targets s).
      target_rel (perOfNum 1.8 (width s)) (n + m) (targets s ! i) (targets s'' ! i)"
  proof (intro allI impI)
    fix i assume i: "i < length (targets s)"
    with a have "i < length (targets s')" by (simp add: session_rel_def)
    with a b i w show "target_rel (perOfNum 1.8 (width s)) (n + m) (targets s ! i) (targets s'' ! i)"
      by (auto simp: session_rel_def intro: target_rel_trans)
  qed
  ultimately show ?thesis
    using a b by (simp add: session_rel_def)
qed

lemma draw_session:
  assumes ok: "counters_ok s"
  shows "\<exists>s'. draw hbb s = Inr s' \<and> session_rel hbb mv 0 s s'"
proof -
  obtain bs1 ts bs c where
    d: "draw hbb s =
       Inr (s\<lparr>targets := ts, bullets := bs, closestTarget := c,
              stats := update_Stats (stats s) (length bs)
                (length (filter (\<lambda>b. b_status b = Hit) bs))
                (length (filter (\<lambda>b. b_status b = Miss) bs)),
              gameOver := (case c of None \<Rightarrow> False
                 | Some k \<Rightarrow> t_y (ts ! k) + t_height (ts ! k) \<ge> g_y (gun s))\<rparr>)"
    and l1: "length bs1 = length (bullets s)"
    and k1: "\<forall>k<length (bullets s). bs1 ! k =
       (if b_status (bullets s ! k) = InFlight
        then (if b_y (bullets s ! k) + b_radius (bullets s ! k) \<le> 0
              then (bullets s ! k)\<lparr>b_status := Miss\<rparr>
              else (bullets s ! k)\<lparr>b_y := b_y (bullets s ! k) - bulletStep s\<rparr>)
        else bullets s ! k)"
    and f: "frame_inv hbb (targets s) bs1 (length (targets s)) (ts, bs, c)"
    by (rule draw_total [OF ok, of hbb])
  note len = frame_invD(1,2) [OF f]
  from frame_invD(3) [OF f]
  have T: "\<forall>k<length (targets s). ts ! k = targets s ! k \<or>
            (\<not> t_hit (targets s ! k) \<and> ts ! k = (targets s ! k)\<lparr>t_hit := True\<rparr>)"
    by blast
  note B = frame_invD(4) [OF f]
  have bul: "\<forall>j<length (bullets s). bullet_rel (bullets s ! j) (bs ! j)"
  proof (intro allI impI)
    fix j assume j: "j < length (bullets s)"
    from k1 j have a: "bs1 ! j =
       (if b_status (bullets s ! j) = InFlight
        then (if b_y (bullets s ! j) + b_radius (bullets s ! j) \<le> 0
              then (bullets s ! j)\<lparr>b_status := Miss\<rparr>
              else (bullets s ! j)\<lparr>b_y := b_y (bullets s ! j) - bulletStep s\<rparr>)
        else bullets s ! j)"
      by simp
    from B j l1 have b: "bs ! j = bs1 ! j \<or>
            (bs ! j = (bs1 ! j)\<lparr>b_status := Hit\<rparr> \<and> (\<exists>k<length (targets s). \<not> t_hit (targets s ! k) \<and> hbb (targets s ! k) (bs1 ! j)))"
      by simp
    show "bullet_rel (bullets s ! j) (bs ! j)"
    proof (cases "b_status (bullets s ! j) = InFlight")
      case True
      with a b show ?thesis
        by (auto simp: bullet_rel_def)
    next
      case False
      with a have e: "bs1 ! j = bullets s ! j" by simp
      from b show ?thesis
      proof
        assume "bs ! j = bs1 ! j"
        with e show ?thesis by (simp add: bullet_rel_def)
      next
        assume h: "bs ! j = (bs1 ! j)\<lparr>b_status := Hit\<rparr> \<and> (\<exists>k<length (targets s). \<not> t_hit (targets s ! k) \<and> hbb (targets s ! k) (bs1 ! j))"
        with e False show ?thesis
          by (auto simp: bullet_rel_def Bullet_hit_idem)
      qed
    qed
  qed
  have tar: "\<forall>i<length (targets s).
        target_rel (perOfNum 1.8 (width s)) 0 (targets s ! i) (ts ! i)"
  proof (intro allI impI)
    fix i assume "i < length (targets s)"
    with T have "ts ! i = targets s ! i \<or>
            (\<not> t_hit (targets s ! i) \<and> ts ! i = (targets s ! i)\<lparr>t_hit := True\<rparr>)"
      by simp
    then show "target_rel (perOfNum 1.8 (width s)) 0 (targets s ! i) (ts ! i)"
      by (auto simp: target_rel_def)
  qed
  have "session_rel hbb mv 0 s
       (s\<lparr>targets := ts, bullets := bs, closestTarget := c,
              stats := update_Stats (stats s) (length bs)
                (length (filter (\<lambda>b. b_status b = Hit) bs))
                (length (filter (\<lambda>b. b_status b = Miss) bs)),
              gameOver := (case c of None \<Rightarrow> False
                 | Some k \<Rightarrow> t_y (ts ! k) + t_height (ts ! k) \<ge> g_y (gun s))\<rparr>)"
    unfolding session_rel_def using ok len l1 bul tar
    by (simp add: counters_ok_def)
  with d show ?thesis by simp
qed

lemma createBullet_session:
  assumes ok: "counters_ok s"
  shows "session_rel hbb mv 0 s (createBullet s)"
  using ok
  by (simp add: session_rel_def createBullet_def Let_def counters_ok_def nth_append
      bullet_rel_refl target_rel_refl)

lemma moveGun_session:
  assumes ok: "counters_ok s"
  shows "session_rel hbb mv 0 s (moveGunLeft mv s)"
    and "session_rel hbb mv 0 s (moveGunRight mv s)"
  using ok
  by (simp_all add: session_rel_def moveGunLeft_def moveGunRight_def counters_ok_def
      bullet_rel_refl target_rel_refl)

lemma createTargets_session:
  assumes ok: "counters_ok s"
  shows "\<exists>s'. createTargets s = Inr s' \<and> session_rel hbb mv 1 s s'"
proof -
  from ok have le: "targetsLen s \<le> length (targets s)"
    by (simp add: counters_ok_def)
  obtain ts' where
    c: "createTargets s =
       Inr (s\<lparr>targets := ts' @
                map (\<lambda>k. new_Target
                      (perOfNum 1.8 (width s) + real k *
                         (Math_round ((width s - perOfNum 1.8 (width s)) / 12)
                            - perOfNum 1.8 (width s) + perOfNum 1.8 (width s)))
                      (perOfNum 1.8 (width s))
                      (Math_round ((width s - perOfNum 1.8 (width s)) / 12) - perOfNum 1.8 (width s))
                      (Math_round ((width s - perOfNum 1.8 (width s)) / 12) - perOfNum 1.8 (width s)))
                  [0..<12],
              targetsLen := length (targets s) + 12\<rparr>)"
    and n: "length ts' = length (targets s)"
    and k: "\<forall>k<length (targets s). ts' ! k =
       (if k < targetsLen s \<and> \<not> t_hit (targets s ! k)
        then (targets s ! k)\<lparr>t_y := t_y (targets s ! k) + t_height (targets s ! k)
                                  + perOfNum 1.8 (width s)\<rparr>
        else targets s ! k)"
    by (rule createTargets_total [OF le])
  have tar: "\<forall>i<length (targets s).
        target_rel (perOfNum 1.8 (width s)) 1 (targets s ! i) (ts' ! i)"
    using k ok by (auto simp: target_rel_def counters_ok_def)
  have "session_rel hbb mv 1 s
       (s\<lparr>targets := ts' @
                map (\<lambda>k. new_Target
                      (perOfNum 1.8 (width s) + real k *
                         (Math_round ((width s - perOfNum 1.8 (width s)) / 12)
                            - perOfNum 1.8 (width s) + perOfNum 1.8 (width s)))
                      (perOfNum 1.8 (width s))
                      (Math_round ((width s - perOfNum 1.8 (width s)) / 12) - perOfNum 1.8 (width s))
                      (Math_round ((width s - perOfNum 1.8 (width s)) / 12) - perOfNum 1.8 (width s)))
                  [0..<12],
              targetsLen := length (targets s) + 12\<rparr>)"
    unfolding session_rel_def using ok n tar
    by (simp add: counters_ok_def nth_append bullet_rel_refl del: upt_Suc)
  with c show ?thesis by simp
qed

lemma step_session:
  assumes ok: "counters_ok s"
  shows "\<exists>s'. step hbb mv e s = Inr s' \<and>
           session_rel hbb mv (if e = CreateTargets then 1 else 0) s s'"
  using draw_session [OF ok, of hbb mv] createBullet_session [OF ok, of hbb mv]
    moveGun_session [OF ok, of hbb mv] createTargets_session [OF ok, of hbb mv]
  by (cases e) simp_all

lemma run_session:
  assumes ok: "counters_ok s"
  shows "\<exists>s'. run hbb mv evs s = Inr s' \<and>
           session_rel hbb mv (count_list evs CreateTargets) s s'"
  using ok
proof (induction evs arbitrary: s)
  case Nil
  then show ?case by (simp add: session_rel_refl)
next
  case (Cons e es)
  from step_session [OF Cons.prems, of hbb mv e] obtain s1 where
    s1: "step hbb mv e s = Inr s1"
      "session_rel hbb mv (if e = CreateTargets then 1 else 0) s s1"
    by blast
  then have "counters_ok s1" by (simp add: session_rel_def)
  from Cons.IH [OF this] obtain s' where
    s': "run hbb mv es s1 = Inr s'" "session_rel hbb mv (count_list es CreateTargets) s1 s'"
    by blast
  from session_rel_trans [OF s1(2) s'(2)]
  have "session_rel hbb mv (count_list (e # es) CreateTargets) s s'"
    by (cases "e = CreateTargets") simp_all
  with s1(1) s'(1) show ?case by simp
qed

subsection \<open>A bullet that is \<open>Miss\<close>\<close>

lemma draw_miss_stays:
  assumes ok: "counters_ok s" and i: "i < length (bullets s)"
    and m: "b_status (bullets s ! i) = Miss"
    and nh: "\<forall>t\<in>set (targets s). \<not> t_hit t \<longrightarrow> \<not> hbb t (bullets s ! i)"
  shows "\<exists>s'. draw hbb s = Inr s' \<and> bullets s' ! i = bullets s ! i"
proof -
  obtain bs1 ts bs c where
    d: "draw hbb s =
       Inr (s\<lparr>targets := ts, bullets := bs, closestTarget := c,
              stats := update_Stats (stats s) (length bs)
                (length (filter (\<lambda>b. b_status b = Hit) bs))
                (length (filter (\<lambda>b. b_status b = Miss) bs)),
              gameOver := (case c of None \<Rightarrow> False
                 | Some k \<Rightarrow> t_y (ts ! k) + t_height (ts ! k) \<ge> g_y (gun s))\<rparr>)"
    and l1: "length bs1 = length (bullets s)"
    and k1: "\<forall>k<length (bullets s). bs1 ! k =
       (if b_status (bullets s ! k) = InFlight
        then (if b_y (bullets s ! k) + b_radius (bullets s ! k) \<le> 0
              then (bullets s ! k)\<lparr>b_status := Miss\<rparr>
              else (bullets s ! k)\<lparr>b_y := b_y (bullets s ! k) - bulletStep s\<rparr>)
        else bullets s ! k)"
    and f: "frame_inv hbb (targets s) bs1 (length (targets s)) (ts, bs, c)"
    by (rule draw_total [OF ok, of hbb])
  from k1 i m have e: "bs1 ! i = bullets s ! i" by simp
  from frame_invD(4) [OF f] i l1
  have "bs ! i = bs1 ! i \<or>
      (bs ! i = (bs1 ! i)\<lparr>b_status := Hit\<rparr> \<and>
       (\<exists>k<length (targets s). \<not> t_hit (targets s ! k) \<and> hbb (targets s ! k) (bs1 ! i)))"
    by simp
  moreover have "\<not> (\<exists>k<length (targets s). \<not> t_hit (targets s ! k) \<and>
      hbb (targets s ! k) (bs1 ! i))"
    using nh e by (auto simp: all_set_conv_all_nth)
  ultimately have "bs ! i = bullets s ! i" using e by metis
  with d show ?thesis by simp
qed

lemma step_miss_stays:
  assumes ok: "counters_ok s" and i: "i < length (bullets s)"
    and m: "b_status (bullets s ! i) = Miss"
    and nh: "e = Draw \<longrightarrow> (\<forall>t\<in>set (targets s). \<not> t_hit t \<longrightarrow> \<not> hbb t (bullets s ! i))"
  shows "\<exists>s'. step hbb mv e s = Inr s' \<and> counters_ok s' \<and> i < length (bullets s') \<and>
           bullets s' ! i = bullets s ! i"
proof -
  from step_session [OF ok, of hbb mv e] obtain s' where
    s': "step hbb mv e s = Inr s'" and ok': "counters_ok s'"
    and l: "length (bullets s) \<le> length (bullets s')"
    by (auto simp: session_rel_def)
  have "bullets s' ! i = bullets s ! i"
  proof (cases e)
    case Draw
    with nh have "\<forall>t\<in>set (targets s). \<not> t_hit t \<longrightarrow> \<not> hbb t (bullets s ! i)" by simp
    from draw_miss_stays [where hbb = hbb, OF ok i m this] s' Draw show ?thesis by auto
  next
    case CreateBullet
    with s' i show ?thesis
      by (auto simp: createBullet_def Let_def nth_append)
  next
    case CreateTargets
    from ok have le: "targetsLen s \<le> length (targets s)" by (simp add: counters_ok_def)
    obtain ts' where "createTargets s =
       Inr (s\<lparr>targets := ts' @
                map (\<lambda>k. new_Target
                      (perOfNum 1.8 (width s) + real k *
                         (Math_round ((width s - perOfNum 1.8 (width s)) / 12)
                            - perOfNum 1.8 (width s) + perOfNum 1.8 (width s)))
                      (perOfNum 1.8 (width s))
                      (Math_round ((width s - perOfNum 1.8 (width s)) / 12) - perOfNum 1.8 (width s))
                      (Math_round ((width s - perOfNum 1.8 (width s)) / 12) - perOfNum 1.8 (width s)))
                  [0..<12],
              targetsLen := length (targets s) + 12\<rparr>)"
      "length ts' = length (targets s)"
      "\<forall>k<length (targets s). ts' ! k =
       (if k < targetsLen s \<and> \<not> t_hit (targets s ! k)
        then (targets s ! k)\<lparr>t_y := t_y (targets s ! k) + t_height (targets s ! k)
                                  + perOfNum 1.8 (width s)\<rparr>
        else targets s ! k)"
      by (rule createTargets_total [OF le])
    with s' CreateTargets show ?thesis by auto
  next
    case MoveGunLeft
    with s' show ?thesis by (auto simp: moveGunLeft_def)
  next
    case MoveGunRight
    with s' show ?thesis by (auto simp: moveGunRight_def)
  qed
  with s' ok' l i show ?thesis by simp
qed

lemma run_miss_stays:
  assumes ok: "counters_ok s" and i: "i < length (bullets s)"
    and m: "b_status (bullets s ! i) = Miss"
    and nh: "\<forall>k<length evs. evs ! k = Draw \<longrightarrow>
        (\<forall>sk. run hbb mv (take k evs) s = Inr sk \<longrightarrow>
           (\<forall>t\<in>set (targets sk). \<not> t_hit t \<longrightarrow> \<not> hbb t (bullets s ! i)))"
  shows "\<exists>s'. run hbb mv evs s = Inr s' \<and> bullets s' ! i = bullets s ! i"
  using ok i m nh
proof (induction evs arbitrary: s)
  case Nil
  show ?case by simp
next
  case (Cons e es)
  from Cons.prems(4) [rule_format, of 0]
  have h0: "e = Draw \<longrightarrow> (\<forall>t\<in>set (targets s). \<not> t_hit t \<longrightarrow> \<not> hbb t (bullets s ! i))"
    by simp
  from step_miss_stays [where hbb = hbb and mv = mv and e = e, OF Cons.prems(1-3) h0] obtain s1 where
    s1: "step hbb mv e s = Inr s1" "counters_ok s1" "i < length (bullets s1)"
      "bullets s1 ! i = bullets s ! i"
    by blast
  have rest: "\<forall>k<length es. es ! k = Draw \<longrightarrow>
        (\<forall>sk. run hbb mv (take k es) s1 = Inr sk \<longrightarrow>
           (\<forall>t\<in>set (targets sk). \<not> t_hit t \<longrightarrow> \<not> hbb t (bullets s1 ! i)))"
  proof (intro allI impI)
    fix k sk
    assume k: "k < length es" and d: "es ! k = Draw"
      and r: "run hbb mv (take k es) s1 = Inr sk"
    from Cons.prems(4) [rule_format, of "Suc k" sk] k d r s1(1)
    show "\<forall>t\<in>set (targets sk). \<not> t_hit t \<longrightarrow> \<not> hbb t (bullets s1 ! i)"
      by (simp add: s1(4))
  qed
  from s1(4) Cons.prems(3) have m1: "b_status (bullets s1 ! i) = Miss" by simp
  from Cons.IH [OF s1(2,3) m1 rest] obtain s' where
    "run hbb mv es s1 = Inr s'" "bullets s' ! i = bullets s1 ! i"
    by blast
  with s1 show ?case by simp
qed

section \<open>The samples\<close>

lemma ex_field_constructor: "constructor 1200 800 = ex_field [] []"
  by (simp add: constructor_def ex_field_def ex_gun_def ex_stats_def createStats_def
      createGun_def new_Gun_def new_Stats_def perOfNum_def Math_round_def Let_def)

lemmas eval_defs = draw_def drawBullets_def drawTargets_def drawStats_def checkGameOver_def
  checkTarget_def moveBullet_def countStatus_def update_Stats_def createTargets_def
  createBullet_def shiftTarget_def new_Target_def new_Bullet_def perOfNum_def Math_round_def
  moveGunLeft_def moveGunRight_def ex_field_def ex_gun_def ex_stats_def Let_def
  addTargets_eq upt_conv_Cons forM_append

lemma ex_row_newGame:
  "newGame overlaps (constructor 1200 800) =
     Inr ((ex_field [] ex_row)\<lparr>closestTarget := Some 0,
            stats := ex_stats\<lparr>s_updates := [(0, 0, 0), (0, 0, 0)]\<rparr>\<rparr>)"
  by (simp add: newGame_def ex_field_constructor ex_row_def eval_defs)

section \<open>The claims\<close>

text \<open>
  C1 (amended). \<open>checkGameOver\<close> assigns \<open>gameOver\<close> anew on every frame, from the
  \<open>closestTarget\<close> of that frame. Let a frame set \<open>gameOver\<close>, with \<open>closestTarget\<close>
  the target \<open>c\<close>. After any further stretch of the session (frames, shots, new
  rows, gun moves that keep the gun's \<open>y\<close>) the next frame sets \<open>gameOver\<close> again,
  provided the hit flag of \<open>c\<close> is what it was (\<open>c\<close> has not been hit since) and rows
  move down (\<open>height + gap\<close> of \<open>c\<close> is not negative). When \<open>c\<close> is hit, \<open>gameOver\<close>
  can become false again.
\<close>

theorem gameOver_persists:
  assumes "counters_ok s0" and "draw hbb s0 = Inr s1" and "gameOver s1"
    and "\<forall>g x. g_y (mv g x) = g_y g"
  shows "\<exists>c s2 s3. closestTarget s1 = Some c \<and> c < length (targets s1) \<and>
    run hbb mv evs s1 = Inr s2 \<and> draw hbb s2 = Inr s3 \<and>
    (t_hit (targets s3 ! c) = t_hit (targets s1 ! c) \<and>
     0 \<le> t_height (targets s1 ! c) + perOfNum 1.8 (width s1) \<longrightarrow> gameOver s3)"
proof -
  obtain s1' where d1: "draw hbb s0 = Inr s1'" and ok1: "counters_ok s1'"
    and g1: "gun s1' = gun s0"
    and l1: "length (targets s1') = length (targets s0)"
    and e1: "targets s0 = [] \<Longrightarrow> closestTarget s1' = None \<and> \<not> gameOver s1'"
    and n1: "targets s0 \<noteq> [] \<Longrightarrow> \<exists>k. closestTarget s1' = Some k \<and> k < length (targets s0) \<and>
        (k = 0 \<or> \<not> t_hit (targets s1' ! k)) \<and>
        gameOver s1' = (g_y (gun s0) \<le> t_y (targets s1' ! k) + t_height (targets s1' ! k)) \<and>
        t_y (targets s1' ! 0) + t_height (targets s1' ! 0)
          \<le> t_y (targets s1' ! k) + t_height (targets s1' ! k) \<and>
        (\<forall>m<length (targets s0). \<not> t_hit (targets s1' ! m) \<longrightarrow>
           t_y (targets s1' ! m) + t_height (targets s1' ! m)
             \<le> t_y (targets s1' ! k) + t_height (targets s1' ! k))"
    by (rule draw_closest [OF assms(1), of hbb]) blast
  from d1 assms(2) have [simp]: "s1' = s1" by simp
  from e1 assms(3) have ne0: "targets s0 \<noteq> []" by auto
  from n1 [OF ne0] assms(3) obtain c where
    c: "closestTarget s1 = Some c" "c < length (targets s1)"
      "c = 0 \<or> \<not> t_hit (targets s1 ! c)"
      "g_y (gun s1) \<le> t_y (targets s1 ! c) + t_height (targets s1 ! c)"
    using l1 g1 by auto
  from ok1 have ok1': "counters_ok s1" by simp
  from run_session [OF ok1', of hbb mv evs] obtain s2 where
    r: "run hbb mv evs s1 = Inr s2"
    and rel: "session_rel hbb mv (count_list evs CreateTargets) s1 s2"
    by blast
  from rel assms(4) have ok2: "counters_ok s2"
    and g2: "g_y (gun s2) = g_y (gun s1)"
    and l2: "length (targets s1) \<le> length (targets s2)"
    and t2: "target_rel (perOfNum 1.8 (width s1)) (count_list evs CreateTargets)
               (targets s1 ! c) (targets s2 ! c)"
    using c(2) by (simp_all add: session_rel_def)
  obtain s3 where d3: "draw hbb s2 = Inr s3"
    and g3: "gun s3 = gun s2"
    and same3: "\<forall>i<length (targets s2). t_y (targets s3 ! i) = t_y (targets s2 ! i) \<and>
        t_height (targets s3 ! i) = t_height (targets s2 ! i) \<and>
        (t_hit (targets s2 ! i) \<longrightarrow> t_hit (targets s3 ! i))"
    and n3: "targets s2 \<noteq> [] \<Longrightarrow> \<exists>k. closestTarget s3 = Some k \<and> k < length (targets s2) \<and>
        (k = 0 \<or> \<not> t_hit (targets s3 ! k)) \<and>
        gameOver s3 = (g_y (gun s2) \<le> t_y (targets s3 ! k) + t_height (targets s3 ! k)) \<and>
        t_y (targets s3 ! 0) + t_height (targets s3 ! 0)
          \<le> t_y (targets s3 ! k) + t_height (targets s3 ! k) \<and>
        (\<forall>m<length (targets s2). \<not> t_hit (targets s3 ! m) \<longrightarrow>
           t_y (targets s3 ! m) + t_height (targets s3 ! m)
             \<le> t_y (targets s3 ! k) + t_height (targets s3 ! k))"
    by (rule draw_closest [OF ok2, of hbb]) blast
  from c(2) l2 have c2: "c < length (targets s2)" and ne2: "targets s2 \<noteq> []"
    by auto
  from n3 [OF ne2] obtain k where
    k: "gameOver s3 = (g_y (gun s2) \<le> t_y (targets s3 ! k) + t_height (targets s3 ! k))"
      "t_y (targets s3 ! 0) + t_height (targets s3 ! 0)
          \<le> t_y (targets s3 ! k) + t_height (targets s3 ! k)"
      "\<forall>m<length (targets s2). \<not> t_hit (targets s3 ! m) \<longrightarrow>
           t_y (targets s3 ! m) + t_height (targets s3 ! m)
             \<le> t_y (targets s3 ! k) + t_height (targets s3 ! k)"
    by blast
  from same3 c2 have s3c: "t_y (targets s3 ! c) = t_y (targets s2 ! c)"
    "t_height (targets s3 ! c) = t_height (targets s2 ! c)"
    "t_hit (targets s2 ! c) \<longrightarrow> t_hit (targets s3 ! c)"
    by simp_all
  have "gameOver s3"
    if h: "t_hit (targets s3 ! c) = t_hit (targets s1 ! c)"
      and pos: "0 \<le> t_height (targets s1 ! c) + perOfNum 1.8 (width s1)"
  proof -
    have low: "t_y (targets s1 ! c) + t_height (targets s1 ! c)
        \<le> t_y (targets s3 ! c) + t_height (targets s3 ! c)"
    proof (cases "t_hit (targets s1 ! c)")
      case True
      with t2 have "targets s2 ! c = targets s1 ! c" by (simp add: target_rel_def)
      with s3c show ?thesis by simp
    next
      case False
      with h s3c(3) have "\<not> t_hit (targets s2 ! c)" by auto
      with t2 have "t_y (targets s2 ! c) = t_y (targets s1 ! c) +
          real (count_list evs CreateTargets) * (t_height (targets s1 ! c) + perOfNum 1.8 (width s1))"
        and "t_height (targets s2 ! c) = t_height (targets s1 ! c)"
        by (simp_all add: target_rel_def)
      moreover from pos have "0 \<le> real (count_list evs CreateTargets) *
          (t_height (targets s1 ! c) + perOfNum 1.8 (width s1))"
        by simp
      ultimately show ?thesis using s3c by simp
    qed
    have "t_y (targets s3 ! c) + t_height (targets s3 ! c)
        \<le> t_y (targets s3 ! k) + t_height (targets s3 ! k)"
    proof (cases "t_hit (targets s1 ! c)")
      case True
      with c(3) have "c = 0" by auto
      with k(2) show ?thesis by simp
    next
      case False
      with h have "\<not> t_hit (targets s3 ! c)" by simp
      with k(3) c2 show ?thesis by simp
    qed
    with low c(4) g2 k(1) show ?thesis by simp
  qed
  with c(1,2) r d3 show ?thesis by blast
qed

theorem gameOver_persists_witness:
  "counters_ok (ex_field [] ex_targets) \<and>
   draw overlaps (ex_field [] ex_targets) =
     Inr ((ex_field [] ex_targets)\<lparr>gameOver := True, closestTarget := Some 1,
            stats := ex_stats\<lparr>s_updates := [(0, 0, 0)]\<rparr>\<rparr>) \<and>
   (\<exists>s2 s3. run overlaps setX [MoveGunLeft, CreateBullet, CreateTargets]
        ((ex_field [] ex_targets)\<lparr>gameOver := True, closestTarget := Some 1,
            stats := ex_stats\<lparr>s_updates := [(0, 0, 0)]\<rparr>\<rparr>) = Inr s2 \<and>
      draw overlaps s2 = Inr s3 \<and> \<not> t_hit (targets s3 ! 1) \<and> gameOver s3)"
proof -
  let ?s0 = "ex_field [] ex_targets"
  let ?s1 = "(ex_field [] ex_targets)\<lparr>gameOver := True, closestTarget := Some 1,
            stats := ex_stats\<lparr>s_updates := [(0, 0, 0)]\<rparr>\<rparr>"
  have ok: "counters_ok ?s0" by (simp add: counters_ok_def ex_field_def)
  have d: "draw overlaps ?s0 = Inr ?s1"
    by (simp add: eval_defs ex_targets_def overlaps_def)
  have go: "gameOver ?s1" by simp
  have mv: "\<forall>g x. g_y (setX g x) = g_y g" by (simp add: setX_def)
  have e: "case seqE (run overlaps setX [MoveGunLeft, CreateBullet, CreateTargets] ?s1)
        (draw overlaps) of Inr s3 \<Rightarrow> \<not> t_hit (targets s3 ! 1) | Inl e \<Rightarrow> False"
    by (simp add: eval_defs ex_targets_def overlaps_def setX_def)
  have p: "\<not> t_hit (targets ?s1 ! 1)"
    "0 \<le> t_height (targets ?s1 ! 1) + perOfNum 1.8 (width ?s1)"
    by (simp_all add: ex_field_def ex_targets_def perOfNum_def Math_round_def)
  from gameOver_persists [OF ok d go mv, of "[MoveGunLeft, CreateBullet, CreateTargets]"]
  obtain c s2 s3 where c: "closestTarget ?s1 = Some c"
    and r: "run overlaps setX [MoveGunLeft, CreateBullet, CreateTargets] ?s1 = Inr s2"
    and d3: "draw overlaps s2 = Inr s3"
    and i: "t_hit (targets s3 ! c) = t_hit (targets ?s1 ! c) \<and>
     0 \<le> t_height (targets ?s1 ! c) + perOfNum 1.8 (width ?s1) \<longrightarrow> gameOver s3"
    by blast
  from c have c1: "c = 1" by simp
  from e r d3 have h: "\<not> t_hit (targets s3 ! 1)" by simp
  with i p have "gameOver s3" unfolding c1 by blast
  with ok d r d3 h show ?thesis by blast
qed

text \<open>
  As C1 is worded, \<open>gameOver\<close> stays true once a frame has set it. In the field
  below the second target has reached the gun and the frame sets \<open>gameOver\<close>; the
  gun moves under that target and fires, the next frame hits the target, takes the
  first target (hit long ago, high up) for \<open>closestTarget\<close>, and sets \<open>gameOver\<close> to
  false.
\<close>

theorem gameOver_persists_counterexample:
  "draw overlaps (ex_field [] ex_targets) =
     Inr ((ex_field [] ex_targets)\<lparr>gameOver := True, closestTarget := Some 1,
            stats := ex_stats\<lparr>s_updates := [(0, 0, 0)]\<rparr>\<rparr>) \<and>
   run overlaps setX [MoveGunRight, CreateBullet, Draw]
     ((ex_field [] ex_targets)\<lparr>gameOver := True, closestTarget := Some 1,
            stats := ex_stats\<lparr>s_updates := [(0, 0, 0)]\<rparr>\<rparr>) =
     Inr \<lparr>width = 1200, height = 800, gameOver = False,
          gun = \<lparr>g_x = 584, g_y = 668, g_width = 72, g_height = 72\<rparr>, gunStep = 20,
          bullets = [\<lparr>b_x = 620, b_y = 660, b_radius = 12, b_status = Hit\<rparr>],
          bulletsLen = 1, bulletStep = 8,
          targets =
            [\<lparr>t_x = 22, t_y = 22, t_width = 76, t_height = 76, t_hit = True\<rparr>,
             \<lparr>t_x = 610, t_y = 610, t_width = 76, t_height = 76, t_hit = True\<rparr>],
          targetsLen = 2, closestTarget = Some 0,
          stats = \<lparr>s_x = 24, s_y = 760, s_fontSize = 20,
                   s_updates = [(0, 0, 0), (1, 1, 0)]\<rparr>\<rparr>"
  by (simp add: eval_defs ex_targets_def overlaps_def setX_def)

text \<open>
  C2 fails on the code. The scan starts from \<open>closestTarget = targets[0]\<close> whether
  or not that target is hit, and replaces it only by a target that is not hit and
  lies strictly lower. On a field of 1200 by 200: a new game, the gun moved left
  27 times to stand under the first target, one shot and two frames. The second
  frame hits the first target and leaves \<open>closestTarget\<close> pointing to it, although
  eleven targets of the row are not hit.
\<close>

theorem closestTarget_hit:
  "\<exists>s'. seqE (newGame overlaps (constructor 1200 200))
          (run overlaps setX (replicate 27 MoveGunLeft @ [CreateBullet, Draw, Draw])) = Inr s' \<and>
      closestTarget s' = Some 0 \<and> t_hit (targets s' ! 0) \<and>
      map t_hit (targets s') =
        [True, False, False, False, False, False, False, False, False, False, False, False]"
proof -
  have "case seqE (newGame overlaps (constructor 1200 200))
          (run overlaps setX (replicate 27 MoveGunLeft @ [CreateBullet, Draw, Draw])) of
      Inl e \<Rightarrow> False
    | Inr s' \<Rightarrow> closestTarget s' = Some 0 \<and> t_hit (targets s' ! 0) \<and>
      map t_hit (targets s') =
        [True, False, False, False, False, False, False, False, False, False, False, False]"
    by code_simp
  then show ?thesis
    by (simp split: sum.splits)
qed

text \<open>
  C3 (amended). Over any stretch of a session (frames, shots, new rows, gun moves),
  whatever the hit test: a bullet that is \<open>Hit\<close> stays \<open>Hit\<close>, and a bullet that has
  left \<open>InFlight\<close> never returns to it. A bullet that is \<open>Miss\<close> stays \<open>Miss\<close> over
  the stretch provided that, at every frame of it, the hit test fails on the bullet
  for each target that is not hit when the frame begins. These are the tests the
  collision scan can make on it: the scan tests the bullets of every status, and a
  \<open>Miss\<close> bullet on which the test succeeds becomes \<open>Hit\<close>.
\<close>

theorem bullet_status_forward:
  assumes "counters_ok s"
  shows "\<exists>s'. run hbb mv evs s = Inr s' \<and> length (bullets s) \<le> length (bullets s') \<and>
    (\<forall>i<length (bullets s).
       (b_status (bullets s ! i) = Hit \<longrightarrow> b_status (bullets s' ! i) = Hit) \<and>
       (b_status (bullets s ! i) \<noteq> InFlight \<longrightarrow> b_status (bullets s' ! i) \<noteq> InFlight) \<and>
       (b_status (bullets s ! i) = Miss \<and>
        (\<forall>k<length evs. evs ! k = Draw \<longrightarrow>
           (\<forall>sk. run hbb mv (take k evs) s = Inr sk \<longrightarrow>
              (\<forall>t\<in>set (targets sk). \<not> t_hit t \<longrightarrow> \<not> hbb t (bullets s ! i)))) \<longrightarrow>
          b_status (bullets s' ! i) = Miss))"
proof -
  from run_session [OF assms, of hbb mv evs] obtain s' where
    r: "run hbb mv evs s = Inr s'"
    and l: "length (bullets s) \<le> length (bullets s')"
    and b: "\<forall>j<length (bullets s). bullet_rel (bullets s ! j) (bullets s' ! j)"
    by (auto simp: session_rel_def)
  have "(b_status (bullets s ! i) = Hit \<longrightarrow> b_status (bullets s' ! i) = Hit) \<and>
       (b_status (bullets s ! i) \<noteq> InFlight \<longrightarrow> b_status (bullets s' ! i) \<noteq> InFlight) \<and>
       (b_status (bullets s ! i) = Miss \<and>
        (\<forall>k<length evs. evs ! k = Draw \<longrightarrow>
           (\<forall>sk. run hbb mv (take k evs) s = Inr sk \<longrightarrow>
              (\<forall>t\<in>set (targets sk). \<not> t_hit t \<longrightarrow> \<not> hbb t (bullets s ! i)))) \<longrightarrow>
          b_status (bullets s' ! i) = Miss)"
    if i: "i < length (bullets s)" for i
  proof -
    from b i have rel: "bullet_rel (bullets s ! i) (bullets s' ! i)" by simp
    have "b_status (bullets s' ! i) = Miss"
      if m: "b_status (bullets s ! i) = Miss"
        and nh: "\<forall>k<length evs. evs ! k = Draw \<longrightarrow>
           (\<forall>sk. run hbb mv (take k evs) s = Inr sk \<longrightarrow>
              (\<forall>t\<in>set (targets sk). \<not> t_hit t \<longrightarrow> \<not> hbb t (bullets s ! i)))"
    proof -
      from run_miss_stays [where hbb = hbb and mv = mv and evs = evs, OF assms i m nh] r m
      show ?thesis by auto
    qed
    with rel show ?thesis
      unfolding bullet_rel_def by metis
  qed
  with r l show ?thesis by blast
qed

theorem bullet_status_forward_witness:
  "counters_ok (ex_field [\<lparr>b_x = 620, b_y = 120, b_radius = 12, b_status = Hit\<rparr>,
                          \<lparr>b_x = 620, b_y = - 12, b_radius = 12, b_status = Miss\<rparr>] ex_targets) \<and>
   (\<exists>s'. run overlaps setX [Draw, MoveGunRight, CreateBullet, Draw]
            (ex_field [\<lparr>b_x = 620, b_y = 120, b_radius = 12, b_status = Hit\<rparr>,
                       \<lparr>b_x = 620, b_y = - 12, b_radius = 12, b_status = Miss\<rparr>] ex_targets) = Inr s' \<and>
      b_status (bullets s' ! 0) = Hit \<and> b_status (bullets s' ! 1) = Miss)"
proof -
  let ?s = "ex_field [\<lparr>b_x = 620, b_y = 120, b_radius = 12, b_status = Hit\<rparr>,
                          \<lparr>b_x = 620, b_y = - 12, b_radius = 12, b_status = Miss\<rparr>] ex_targets"
  let ?evs = "[Draw, MoveGunRight, CreateBullet, Draw]"
  have ok: "counters_ok ?s" by (simp add: counters_ok_def ex_field_def)
  have g: "length (bullets ?s) = 2"
    "b_status (bullets ?s ! 0) = Hit" "b_status (bullets ?s ! 1) = Miss"
    by (simp_all add: ex_field_def)
  have nh: "\<forall>k<length ?evs. ?evs ! k = Draw \<longrightarrow>
           (\<forall>sk. run overlaps setX (take k ?evs) ?s = Inr sk \<longrightarrow>
              (\<forall>t\<in>set (targets sk). \<not> t_hit t \<longrightarrow> \<not> overlaps t (bullets ?s ! 1)))"
  proof (intro allI impI)
    fix k sk
    assume kl: "k < length ?evs" and d: "?evs ! k = Draw"
      and r: "run overlaps setX (take k ?evs) ?s = Inr sk"
    from kl have "k = 0 \<or> k = 1 \<or> k = 2 \<or> k = 3" by auto
    with d have "k = 0 \<or> k = 3" by auto
    then show "\<forall>t\<in>set (targets sk). \<not> t_hit t \<longrightarrow> \<not> overlaps t (bullets ?s ! 1)"
    proof
      assume "k = 0"
      with r have "sk = ?s" by simp
      then show ?thesis
        by (simp add: ex_field_def ex_targets_def overlaps_def)
    next
      assume "k = 3"
      with r have "run overlaps setX [Draw, MoveGunRight, CreateBullet] ?s = Inr sk"
        by simp
      then have "targets sk =
          [\<lparr>t_x = 22, t_y = 22, t_width = 76, t_height = 76, t_hit = True\<rparr>,
           \<lparr>t_x = 610, t_y = 610, t_width = 76, t_height = 76, t_hit = False\<rparr>]"
        by (auto simp: eval_defs ex_targets_def overlaps_def setX_def)
      then show ?thesis
        by (simp add: ex_field_def overlaps_def)
    qed
  qed
  have "\<exists>s'. run overlaps setX ?evs ?s = Inr s' \<and>
    length (bullets ?s) \<le> length (bullets s') \<and>
    (\<forall>i<length (bullets ?s).
       (b_status (bullets ?s ! i) = Hit \<longrightarrow> b_status (bullets s' ! i) = Hit) \<and>
       (b_status (bullets ?s ! i) \<noteq> InFlight \<longrightarrow> b_status (bullets s' ! i) \<noteq> InFlight) \<and>
       (b_status (bullets ?s ! i) = Miss \<and>
        (\<forall>k<length ?evs. ?evs ! k = Draw \<longrightarrow>
           (\<forall>sk. run overlaps setX (take k ?evs) ?s = Inr sk \<longrightarrow>
              (\<forall>t\<in>set (targets sk). \<not> t_hit t \<longrightarrow> \<not> overlaps t (bullets ?s ! i)))) \<longrightarrow>
          b_status (bullets s' ! i) = Miss))"
    by (rule bullet_status_forward [OF ok])
  then obtain s' where x: "run overlaps setX ?evs ?s = Inr s' \<and>
    length (bullets ?s) \<le> length (bullets s') \<and>
    (\<forall>i<length (bullets ?s).
       (b_status (bullets ?s ! i) = Hit \<longrightarrow> b_status (bullets s' ! i) = Hit) \<and>
       (b_status (bullets ?s ! i) \<noteq> InFlight \<longrightarrow> b_status (bullets s' ! i) \<noteq> InFlight) \<and>
       (b_status (bullets ?s ! i) = Miss \<and>
        (\<forall>k<length ?evs. ?evs ! k = Draw \<longrightarrow>
           (\<forall>sk. run overlaps setX (take k ?evs) ?s = Inr sk \<longrightarrow>
              (\<forall>t\<in>set (targets sk). \<not> t_hit t \<longrightarrow> \<not> overlaps t (bullets ?s ! i)))) \<longrightarrow>
          b_status (bullets s' ! i) = Miss))" ..
  have zero: "0 < length (bullets ?s)" and one: "1 < length (bullets ?s)"
    using g(1) by simp_all
  note a0 = conjunct2 [OF conjunct2 [OF x], rule_format, OF zero]
  note a1 = conjunct2 [OF conjunct2 [OF x], rule_format, OF one]
  from conjunct1 [OF a0] g(2) have h: "b_status (bullets s' ! 0) = Hit" by (rule mp)
  from conjunct2 [OF conjunct2 [OF a1]] g(3) nh
  have m: "b_status (bullets s' ! 1) = Miss" by (rule mp [OF _ conjI])
  from conjunct1 [OF x] h m have "run overlaps setX ?evs ?s = Inr s' \<and>
      b_status (bullets s' ! 0) = Hit \<and> b_status (bullets s' ! 1) = Miss"
    by (intro conjI)
  then have "\<exists>s'. run overlaps setX ?evs ?s = Inr s' \<and>
      b_status (bullets s' ! 0) = Hit \<and> b_status (bullets s' ! 1) = Miss" ..
  with ok show ?thesis by (rule conjI)
qed

text \<open>
  As C3 is worded, no hit test can turn a \<open>Miss\<close> into a \<open>Hit\<close>. With a test that
  succeeds on the bullet below, which left the field and is \<open>Miss\<close>, the frame hits
  the target with it and sets its status to \<open>Hit\<close>.
\<close>

theorem bullet_status_forward_counterexample:
  "draw alwaysHit
     (ex_field [\<lparr>b_x = 620, b_y = - 12, b_radius = 12, b_status = Miss\<rparr>]
               [\<lparr>t_x = 610, t_y = 22, t_width = 76, t_height = 76, t_hit = False\<rparr>]) =
   Inr ((ex_field [\<lparr>b_x = 620, b_y = - 12, b_radius = 12, b_status = Hit\<rparr>]
                  [\<lparr>t_x = 610, t_y = 22, t_width = 76, t_height = 76, t_hit = True\<rparr>])
          \<lparr>closestTarget := Some 0, stats := ex_stats\<lparr>s_updates := [(1, 1, 0)]\<rparr>\<rparr>)"
  by (simp add: eval_defs alwaysHit_def)

text \<open>
  C4 (amended). The bullet-motion step of a frame tests before it moves. A bullet in
  flight whose \<open>y + radius \<le> 0\<close> holds at the start of the step is set to
  \<open>Miss\<close> and keeps its position; every other bullet in flight has its \<open>y\<close>
  decremented by \<open>bulletStep\<close> and stays in flight for this step, also when
  \<open>y + radius \<le> 0\<close> holds after the move; a bullet that is \<open>Hit\<close> or \<open>Miss\<close>
  is left as it is. Nothing else of the state changes.
\<close>

theorem drawBullets_motion:
  assumes "counters_ok s"
  shows "\<exists>bs'. drawBullets s = Inr (s\<lparr>bullets := bs'\<rparr>) \<and> length bs' = length (bullets s) \<and>
    (\<forall>i<length (bullets s).
       (b_status (bullets s ! i) = InFlight \<and> b_y (bullets s ! i) + b_radius (bullets s ! i) \<le> 0
          \<longrightarrow> bs' ! i = (bullets s ! i)\<lparr>b_status := Miss\<rparr>) \<and>
       (b_status (bullets s ! i) = InFlight \<and> 0 < b_y (bullets s ! i) + b_radius (bullets s ! i)
          \<longrightarrow> bs' ! i = (bullets s ! i)\<lparr>b_y := b_y (bullets s ! i) - bulletStep s\<rparr>) \<and>
       (b_status (bullets s ! i) \<noteq> InFlight \<longrightarrow> bs' ! i = bullets s ! i))"
proof -
  from assms have "bulletsLen s \<le> length (bullets s)"
    by (simp add: counters_ok_def)
  from drawBullets_total [OF this] obtain bs' where
    r: "drawBullets s = Inr (s\<lparr>bullets := bs'\<rparr>)" "length bs' = length (bullets s)"
    and k: "\<forall>k<length (bullets s). bs' ! k =
       (if k < bulletsLen s \<and> b_status (bullets s ! k) = InFlight
        then (if b_y (bullets s ! k) + b_radius (bullets s ! k) \<le> 0
              then (bullets s ! k)\<lparr>b_status := Miss\<rparr>
              else (bullets s ! k)\<lparr>b_y := b_y (bullets s ! k) - bulletStep s\<rparr>)
        else bullets s ! k)"
    by blast
  from k assms have "\<forall>i<length (bullets s).
       (b_status (bullets s ! i) = InFlight \<and> b_y (bullets s ! i) + b_radius (bullets s ! i) \<le> 0
          \<longrightarrow> bs' ! i = (bullets s ! i)\<lparr>b_status := Miss\<rparr>) \<and>
       (b_status (bullets s ! i) = InFlight \<and> 0 < b_y (bullets s ! i) + b_radius (bullets s ! i)
          \<longrightarrow> bs' ! i = (bullets s ! i)\<lparr>b_y := b_y (bullets s ! i) - bulletStep s\<rparr>) \<and>
       (b_status (bullets s ! i) \<noteq> InFlight \<longrightarrow> bs' ! i = bullets s ! i)"
    by (simp add: counters_ok_def)
  with r show ?thesis by blast
qed

theorem drawBullets_motion_witness:
  "counters_ok (ex_field ex_bullets []) \<and>
   drawBullets (ex_field ex_bullets []) =
     Inr (ex_field
       [\<lparr>b_x = 600, b_y = - 12, b_radius = 12, b_status = Miss\<rparr>,
        \<lparr>b_x = 600, b_y = 292, b_radius = 12, b_status = InFlight\<rparr>,
        \<lparr>b_x = 600, b_y = 120, b_radius = 12, b_status = Hit\<rparr>] [])"
proof -
  have c: "counters_ok (ex_field ex_bullets [])"
    by (simp add: counters_ok_def ex_field_def)
  from drawBullets_motion [OF c] obtain bs' where
    r: "drawBullets (ex_field ex_bullets []) = Inr ((ex_field ex_bullets [])\<lparr>bullets := bs'\<rparr>)"
    and l: "length bs' = 3"
    and k: "\<forall>i<3.
       (b_status (ex_bullets ! i) = InFlight \<and> b_y (ex_bullets ! i) + b_radius (ex_bullets ! i) \<le> 0
          \<longrightarrow> bs' ! i = (ex_bullets ! i)\<lparr>b_status := Miss\<rparr>) \<and>
       (b_status (ex_bullets ! i) = InFlight \<and> 0 < b_y (ex_bullets ! i) + b_radius (ex_bullets ! i)
          \<longrightarrow> bs' ! i = (ex_bullets ! i)\<lparr>b_y := b_y (ex_bullets ! i) - 8\<rparr>) \<and>
       (b_status (ex_bullets ! i) \<noteq> InFlight \<longrightarrow> bs' ! i = ex_bullets ! i)"
    by (auto simp: ex_field_def ex_bullets_def)
  from k have "bs' ! 0 = \<lparr>b_x = 600, b_y = - 12, b_radius = 12, b_status = Miss\<rparr>"
    and "bs' ! 1 = \<lparr>b_x = 600, b_y = 292, b_radius = 12, b_status = InFlight\<rparr>"
    and "bs' ! 2 = \<lparr>b_x = 600, b_y = 120, b_radius = 12, b_status = Hit\<rparr>"
    by (simp_all add: ex_bullets_def)
  with l have "bs' = [\<lparr>b_x = 600, b_y = - 12, b_radius = 12, b_status = Miss\<rparr>,
        \<lparr>b_x = 600, b_y = 292, b_radius = 12, b_status = InFlight\<rparr>,
        \<lparr>b_x = 600, b_y = 120, b_radius = 12, b_status = Hit\<rparr>]"
    by (simp add: list_eq_iff_nth_eq less_Suc_eq numeral_3_eq_3 numeral_2_eq_2)
  with r c show ?thesis
    by (simp add: ex_field_def ex_bullets_def)
qed

text \<open>
  As C4 is worded (move first, then test) the bullet below, one step from leaving
  the field, would be a \<open>Miss\<close> after the step. The code moves it to \<open>y = -12\<close>,
  where \<open>y + radius = 0\<close>, and leaves it in flight.
\<close>

theorem drawBullets_motion_counterexample:
  "drawBullets (ex_field [\<lparr>b_x = 600, b_y = - 4, b_radius = 12, b_status = InFlight\<rparr>] []) =
     Inr (ex_field [\<lparr>b_x = 600, b_y = - 12, b_radius = 12, b_status = InFlight\<rparr>] [])"
  by (simp add: drawBullets_def moveBullet_def ex_field_def)

text \<open>
  C5. With no targets (and the counters in step with the arrays, as they are after
  every operation), a frame returns without an exception, \<open>closestTarget\<close> is
  \<open>targets[0]\<close> of an empty array, that is no target, and \<open>gameOver\<close> is false.
\<close>

theorem draw_no_targets:
  assumes "counters_ok s" and "targets s = []"
  shows "\<exists>s'. draw hbb s = Inr s' \<and> closestTarget s' = None \<and> \<not> gameOver s'"
proof -
  obtain s' where "draw hbb s = Inr s'"
    and "targets s = [] \<Longrightarrow> closestTarget s' = None \<and> \<not> gameOver s'"
    by (rule draw_closest [OF assms(1), of hbb]) blast
  with assms(2) show ?thesis by blast
qed

theorem draw_no_targets_witness:
  "counters_ok (ex_field ex_bullets []) \<and> targets (ex_field ex_bullets []) = [] \<and>
   (\<exists>s'. draw overlaps (ex_field ex_bullets []) = Inr s' \<and>
      closestTarget s' = None \<and> \<not> gameOver s')"
proof -
  have a: "counters_ok (ex_field ex_bullets [])"
    and b: "targets (ex_field ex_bullets []) = []"
    by (simp_all add: counters_ok_def ex_field_def)
  from a b draw_no_targets [OF a b, of overlaps] show ?thesis by simp
qed

text \<open>
  C6. A call of \<open>createTargets\<close> appends twelve targets to the array. With
  \<open>gap = round(1.8 % of width)\<close> and \<open>size = round((width - gap) / 12)\<close>, each of them
  is \<open>size - gap\<close> wide and high and lies at \<open>y = gap\<close>; the first lies at
  \<open>x = gap\<close> and each next one \<open>width + gap\<close> further right.
\<close>

theorem createTargets_row:
  assumes "counters_ok s"
  shows "\<exists>s'. createTargets s = Inr s' \<and>
    length (targets s') = length (targets s) + 12 \<and>
    (\<forall>k<12.
       t_width (targets s' ! (length (targets s) + k)) =
         Math_round ((width s - perOfNum 1.8 (width s)) / 12) - perOfNum 1.8 (width s) \<and>
       t_height (targets s' ! (length (targets s) + k)) =
         Math_round ((width s - perOfNum 1.8 (width s)) / 12) - perOfNum 1.8 (width s) \<and>
       t_y (targets s' ! (length (targets s) + k)) = perOfNum 1.8 (width s)) \<and>
    t_x (targets s' ! length (targets s)) = perOfNum 1.8 (width s) \<and>
    (\<forall>k<11.
       t_x (targets s' ! (length (targets s) + Suc k)) =
         t_x (targets s' ! (length (targets s) + k)) +
           (t_width (targets s' ! (length (targets s) + k)) + perOfNum 1.8 (width s)))"
proof -
  from assms have le: "targetsLen s \<le> length (targets s)"
    by (simp add: counters_ok_def)
  obtain ts' where
    c: "createTargets s =
       Inr (s\<lparr>targets := ts' @
                map (\<lambda>k. new_Target
                      (perOfNum 1.8 (width s) + real k *
                         (Math_round ((width s - perOfNum 1.8 (width s)) / 12)
                            - perOfNum 1.8 (width s) + perOfNum 1.8 (width s)))
                      (perOfNum 1.8 (width s))
                      (Math_round ((width s - perOfNum 1.8 (width s)) / 12) - perOfNum 1.8 (width s))
                      (Math_round ((width s - perOfNum 1.8 (width s)) / 12) - perOfNum 1.8 (width s)))
                  [0..<12],
              targetsLen := length (targets s) + 12\<rparr>)"
    and n: "length ts' = length (targets s)"
    and k: "\<forall>k<length (targets s). ts' ! k =
       (if k < targetsLen s \<and> \<not> t_hit (targets s ! k)
        then (targets s ! k)\<lparr>t_y := t_y (targets s ! k) + t_height (targets s ! k)
                                  + perOfNum 1.8 (width s)\<rparr>
        else targets s ! k)"
    by (rule createTargets_total [OF le])
  show ?thesis
    unfolding c using n
    by (simp add: nth_append new_Target_def algebra_simps del: upt_Suc)
qed

theorem createTargets_row_witness:
  "counters_ok (ex_field [] ex_targets) \<and>
   (\<exists>s'. createTargets (ex_field [] ex_targets) = Inr s' \<and> length (targets s') = 14 \<and>
      targets s' ! 2 = \<lparr>t_x = 22, t_y = 22, t_width = 76, t_height = 76, t_hit = False\<rparr> \<and>
      targets s' ! 3 = \<lparr>t_x = 120, t_y = 22, t_width = 76, t_height = 76, t_hit = False\<rparr> \<and>
      t_x (targets s' ! 4) = t_x (targets s' ! 3) + (t_width (targets s' ! 3) + 22))"
proof -
  let ?s = "ex_field [] ex_targets"
  have ok: "counters_ok ?s" by (simp add: counters_ok_def ex_field_def)
  have e: "case createTargets ?s of Inr s' \<Rightarrow>
      targets s' ! 2 = \<lparr>t_x = 22, t_y = 22, t_width = 76, t_height = 76, t_hit = False\<rparr> \<and>
      targets s' ! 3 = \<lparr>t_x = 120, t_y = 22, t_width = 76, t_height = 76, t_hit = False\<rparr>
    | Inl e \<Rightarrow> False"
    by (simp add: eval_defs ex_targets_def)
  from createTargets_row [OF ok] obtain s' where
    r: "createTargets ?s = Inr s'" and l: "length (targets s') = length (targets ?s) + 12"
    and x: "\<forall>k<11. t_x (targets s' ! (length (targets ?s) + Suc k)) =
         t_x (targets s' ! (length (targets ?s) + k)) +
           (t_width (targets s' ! (length (targets ?s) + k)) + perOfNum 1.8 (width ?s))"
    by blast
  have g: "perOfNum 1.8 (width ?s) = 22" "length (targets ?s) = 2"
    by (simp_all add: ex_field_def ex_targets_def perOfNum_def Math_round_def)
  from x [rule_format, of 1] g have "t_x (targets s' ! 4) =
      t_x (targets s' ! 3) + (t_width (targets s' ! 3) + 22)"
    by simp
  with r l e ok g show ?thesis
    by simp
qed

text \<open>
  C7. A call of \<open>createTargets\<close> moves every target that is not hit down by its
  height plus the gap and leaves every hit target where it is. Over any stretch of
  a session (frames, shots, new rows, gun moves), a target that is not hit at the
  end has moved down by the number of \<open>createTargets\<close> calls times its height plus
  the gap.
\<close>

theorem createTargets_descent:
  assumes "counters_ok s"
  shows "(\<exists>s'. createTargets s = Inr s' \<and>
      (\<forall>i<length (targets s).
         (\<not> t_hit (targets s ! i) \<longrightarrow>
            targets s' ! i = (targets s ! i)\<lparr>t_y := t_y (targets s ! i) +
               (t_height (targets s ! i) + perOfNum 1.8 (width s))\<rparr>) \<and>
         (t_hit (targets s ! i) \<longrightarrow> targets s' ! i = targets s ! i))) \<and>
    (\<exists>s'. run hbb mv evs s = Inr s' \<and>
      (\<forall>i<length (targets s). \<not> t_hit (targets s' ! i) \<longrightarrow>
         t_y (targets s' ! i) = t_y (targets s ! i) +
           real (count_list evs CreateTargets) *
             (t_height (targets s ! i) + perOfNum 1.8 (width s))))"
proof -
  from assms have le: "targetsLen s \<le> length (targets s)"
    and eq: "targetsLen s = length (targets s)"
    by (simp_all add: counters_ok_def)
  obtain ts' where
    c: "createTargets s =
       Inr (s\<lparr>targets := ts' @
                map (\<lambda>k. new_Target
                      (perOfNum 1.8 (width s) + real k *
                         (Math_round ((width s - perOfNum 1.8 (width s)) / 12)
                            - perOfNum 1.8 (width s) + perOfNum 1.8 (width s)))
                      (perOfNum 1.8 (width s))
                      (Math_round ((width s - perOfNum 1.8 (width s)) / 12) - perOfNum 1.8 (width s))
                      (Math_round ((width s - perOfNum 1.8 (width s)) / 12) - perOfNum 1.8 (width s)))
                  [0..<12],
              targetsLen := length (targets s) + 12\<rparr>)"
    and n: "length ts' = length (targets s)"
    and k: "\<forall>k<length (targets s). ts' ! k =
       (if k < targetsLen s \<and> \<not> t_hit (targets s ! k)
        then (targets s ! k)\<lparr>t_y := t_y (targets s ! k) + t_height (targets s ! k)
                                  + perOfNum 1.8 (width s)\<rparr>
        else targets s ! k)"
    by (rule createTargets_total [OF le])
  have one: "\<exists>s'. createTargets s = Inr s' \<and>
      (\<forall>i<length (targets s).
         (\<not> t_hit (targets s ! i) \<longrightarrow>
            targets s' ! i = (targets s ! i)\<lparr>t_y := t_y (targets s ! i) +
               (t_height (targets s ! i) + perOfNum 1.8 (width s))\<rparr>) \<and>
         (t_hit (targets s ! i) \<longrightarrow> targets s' ! i = targets s ! i))"
    unfolding c using n k eq
    by (simp add: nth_append add.assoc del: upt_Suc)
  from run_session [OF assms, of hbb mv evs] obtain s' where
    r: "run hbb mv evs s = Inr s'"
    and t: "\<forall>i<length (targets s).
        target_rel (perOfNum 1.8 (width s)) (count_list evs CreateTargets)
          (targets s ! i) (targets s' ! i)"
    by (auto simp: session_rel_def)
  from t have "\<forall>i<length (targets s). \<not> t_hit (targets s' ! i) \<longrightarrow>
         t_y (targets s' ! i) = t_y (targets s ! i) +
           real (count_list evs CreateTargets) *
             (t_height (targets s ! i) + perOfNum 1.8 (width s))"
    by (simp add: target_rel_def)
  with r one show ?thesis by blast
qed

theorem createTargets_descent_witness:
  "counters_ok (ex_field [] ex_targets) \<and>
   t_hit (targets (ex_field [] ex_targets) ! 0) \<and>
   \<not> t_hit (targets (ex_field [] ex_targets) ! 1) \<and>
   (\<exists>s'. createTargets (ex_field [] ex_targets) = Inr s' \<and>
      targets s' ! 0 = \<lparr>t_x = 22, t_y = 22, t_width = 76, t_height = 76, t_hit = True\<rparr> \<and>
      targets s' ! 1 = \<lparr>t_x = 610, t_y = 708, t_width = 76, t_height = 76, t_hit = False\<rparr>) \<and>
   (\<exists>s'. run overlaps setX [CreateTargets, Draw, CreateTargets] (ex_field [] ex_targets) = Inr s' \<and>
      \<not> t_hit (targets s' ! 1) \<and> t_y (targets s' ! 1) = 610 + 2 * (76 + 22))"
proof -
  let ?s = "ex_field [] ex_targets"
  have ok: "counters_ok ?s" by (simp add: counters_ok_def ex_field_def)
  have g: "perOfNum 1.8 (width ?s) = 22" "length (targets ?s) = 2"
    "targets ?s ! 0 = \<lparr>t_x = 22, t_y = 22, t_width = 76, t_height = 76, t_hit = True\<rparr>"
    "targets ?s ! 1 = \<lparr>t_x = 610, t_y = 610, t_width = 76, t_height = 76, t_hit = False\<rparr>"
    by (simp_all add: ex_field_def ex_targets_def perOfNum_def Math_round_def)
  have e: "case run overlaps setX [CreateTargets, Draw, CreateTargets] ?s of
      Inr s' \<Rightarrow> \<not> t_hit (targets s' ! 1) | Inl e \<Rightarrow> False"
    by (simp add: eval_defs ex_targets_def overlaps_def setX_def)
  from createTargets_descent [OF ok, of overlaps setX "[CreateTargets, Draw, CreateTargets]"]
  obtain s1 s2 where
    r1: "createTargets ?s = Inr s1"
    and a1: "\<forall>i<length (targets ?s).
         (\<not> t_hit (targets ?s ! i) \<longrightarrow>
            targets s1 ! i = (targets ?s ! i)\<lparr>t_y := t_y (targets ?s ! i) +
               (t_height (targets ?s ! i) + perOfNum 1.8 (width ?s))\<rparr>) \<and>
         (t_hit (targets ?s ! i) \<longrightarrow> targets s1 ! i = targets ?s ! i)"
    and r2: "run overlaps setX [CreateTargets, Draw, CreateTargets] ?s = Inr s2"
    and a2: "\<forall>i<length (targets ?s). \<not> t_hit (targets s2 ! i) \<longrightarrow>
         t_y (targets s2 ! i) = t_y (targets ?s ! i) +
           real (count_list [CreateTargets, Draw, CreateTargets] CreateTargets) *
             (t_height (targets ?s ! i) + perOfNum 1.8 (width ?s))"
    by blast
  from a1 [rule_format, of 0] a1 [rule_format, of 1] g
  have b1: "targets s1 ! 0 = \<lparr>t_x = 22, t_y = 22, t_width = 76, t_height = 76, t_hit = True\<rparr>"
    "targets s1 ! 1 = \<lparr>t_x = 610, t_y = 708, t_width = 76, t_height = 76, t_hit = False\<rparr>"
    by simp_all
  from e r2 have h: "\<not> t_hit (targets s2 ! 1)" by simp
  with a2 [rule_format, of 1] g have b2: "t_y (targets s2 ! 1) = 610 + 2 * (76 + 22)"
    by simp
  from ok g r1 b1 r2 h b2 show ?thesis
    by simp
qed

text \<open>
  C8. Every frame calls \<open>stats.update\<close> once, with the number of bullets, the number
  of bullets whose status is \<open>Hit\<close> and the number whose status is \<open>Miss\<close>, each
  counted over all the bullets as the frame leaves them. So the last two add up to
  at most the first, and to exactly the first when no bullet is in flight.
\<close>

theorem stats_per_frame:
  assumes "counters_ok s"
  shows "\<exists>s'. draw hbb s = Inr s' \<and> length (bullets s') = length (bullets s) \<and>
    s_updates (stats s') = s_updates (stats s) @
      [(length (bullets s'),
        length (filter (\<lambda>b. b_status b = Hit) (bullets s')),
        length (filter (\<lambda>b. b_status b = Miss) (bullets s')))] \<and>
    length (filter (\<lambda>b. b_status b = Hit) (bullets s')) +
      length (filter (\<lambda>b. b_status b = Miss) (bullets s')) \<le> length (bullets s') \<and>
    ((\<forall>b\<in>set (bullets s'). b_status b \<noteq> InFlight) \<longrightarrow>
      length (filter (\<lambda>b. b_status b = Hit) (bullets s')) +
        length (filter (\<lambda>b. b_status b = Miss) (bullets s')) = length (bullets s'))"
proof -
  obtain bs1 ts bs c where
    d: "draw hbb s =
       Inr (s\<lparr>targets := ts, bullets := bs, closestTarget := c,
              stats := update_Stats (stats s) (length bs)
                (length (filter (\<lambda>b. b_status b = Hit) bs))
                (length (filter (\<lambda>b. b_status b = Miss) bs)),
              gameOver := (case c of None \<Rightarrow> False
                 | Some k \<Rightarrow> t_y (ts ! k) + t_height (ts ! k) \<ge> g_y (gun s))\<rparr>)"
    and l1: "length bs1 = length (bullets s)"
    and k1: "\<forall>k<length (bullets s). bs1 ! k =
       (if b_status (bullets s ! k) = InFlight
        then (if b_y (bullets s ! k) + b_radius (bullets s ! k) \<le> 0
              then (bullets s ! k)\<lparr>b_status := Miss\<rparr>
              else (bullets s ! k)\<lparr>b_y := b_y (bullets s ! k) - bulletStep s\<rparr>)
        else bullets s ! k)"
    and f: "frame_inv hbb (targets s) bs1 (length (targets s)) (ts, bs, c)"
    by (rule draw_total [OF assms, of hbb])
  from frame_invD(2) [OF f] l1 have "length bs = length (bullets s)" by simp
  with d count_status_le [of bs] count_status_eq [of bs] show ?thesis
    by (simp add: update_Stats_def)
qed

theorem stats_per_frame_witness:
  "counters_ok (ex_field [\<lparr>b_x = 600, b_y = 120, b_radius = 12, b_status = Hit\<rparr>,
                          \<lparr>b_x = 600, b_y = - 12, b_radius = 12, b_status = InFlight\<rparr>] ex_targets) \<and>
   draw overlaps (ex_field [\<lparr>b_x = 600, b_y = 120, b_radius = 12, b_status = Hit\<rparr>,
                          \<lparr>b_x = 600, b_y = - 12, b_radius = 12, b_status = InFlight\<rparr>] ex_targets) =
     Inr ((ex_field [\<lparr>b_x = 600, b_y = 120, b_radius = 12, b_status = Hit\<rparr>,
                     \<lparr>b_x = 600, b_y = - 12, b_radius = 12, b_status = Miss\<rparr>] ex_targets)
            \<lparr>gameOver := True, closestTarget := Some 1,
              stats := ex_stats\<lparr>s_updates := [(2, 1, 1)]\<rparr>\<rparr>)"
proof -
  let ?s = "ex_field [\<lparr>b_x = 600, b_y = 120, b_radius = 12, b_status = Hit\<rparr>,
                          \<lparr>b_x = 600, b_y = - 12, b_radius = 12, b_status = InFlight\<rparr>] ex_targets"
  have ok: "counters_ok ?s" by (simp add: counters_ok_def ex_field_def)
  have e: "draw overlaps ?s =
     Inr ((ex_field [\<lparr>b_x = 600, b_y = 120, b_radius = 12, b_status = Hit\<rparr>,
                     \<lparr>b_x = 600, b_y = - 12, b_radius = 12, b_status = Miss\<rparr>] ex_targets)
            \<lparr>gameOver := True, closestTarget := Some 1,
              stats := ex_stats\<lparr>s_updates := [(2, 1, 1)]\<rparr>\<rparr>)"
    by (simp add: eval_defs ex_targets_def overlaps_def)
  from stats_per_frame [OF ok, of overlaps] e ok show ?thesis
    by simp
qed



text \<open>
  C10. \<open>newGame\<close> returns with the cached counters equal to the lengths of the
  arrays, whatever the state it starts from; and from a state where they are
  equal, \<open>createBullet\<close>, \<open>createTargets\<close> and \<open>draw\<close> return (no read past the end of
  an array) with the counters equal to the lengths again.
\<close>

theorem counters_invariant:
  "(\<exists>s'. newGame hbb s = Inr s' \<and>
          bulletsLen s' = length (bullets s') \<and> targetsLen s' = length (targets s')) \<and>
   (bulletsLen s = length (bullets s) \<and> targetsLen s = length (targets s) \<longrightarrow>
      bulletsLen (createBullet s) = length (bullets (createBullet s)) \<and>
      targetsLen (createBullet s) = length (targets (createBullet s)) \<and>
      (\<exists>s'. createTargets s = Inr s' \<and>
          bulletsLen s' = length (bullets s') \<and> targetsLen s' = length (targets s')) \<and>
      (\<exists>s'. draw hbb s = Inr s' \<and>
          bulletsLen s' = length (bullets s') \<and> targetsLen s' = length (targets s')))"
proof -
  let ?s1 = "s\<lparr>gameOver := False, bullets := [], bulletsLen := 0,
                 targets := [], targetsLen := 0, closestTarget := None,
                 stats := update_Stats (stats s) 0 0 0\<rparr>"
  have "counters_ok ?s1" by (simp add: counters_ok_def)
  from createTargets_session [OF this, of hbb "\<lambda>g x. g"] obtain s2 where
    s2: "createTargets ?s1 = Inr s2" "counters_ok s2"
    by (auto simp: session_rel_def)
  from draw_session [OF s2(2), of hbb "\<lambda>g x. g"] obtain s3 where
    s3: "draw hbb s2 = Inr s3" "counters_ok s3"
    by (auto simp: session_rel_def)
  have new: "\<exists>s'. newGame hbb s = Inr s' \<and>
          bulletsLen s' = length (bullets s') \<and> targetsLen s' = length (targets s')"
    using s2 s3 by (simp add: newGame_def counters_ok_def)
  have rest: "bulletsLen (createBullet s) = length (bullets (createBullet s)) \<and>
      targetsLen (createBullet s) = length (targets (createBullet s)) \<and>
      (\<exists>s'. createTargets s = Inr s' \<and>
          bulletsLen s' = length (bullets s') \<and> targetsLen s' = length (targets s')) \<and>
      (\<exists>s'. draw hbb s = Inr s' \<and>
          bulletsLen s' = length (bullets s') \<and> targetsLen s' = length (targets s'))"
    if "bulletsLen s = length (bullets s) \<and> targetsLen s = length (targets s)"
  proof -
    from that have ok: "counters_ok s" by (simp add: counters_ok_def)
    from createBullet_session [OF ok, of hbb "\<lambda>g x. g"]
    have "counters_ok (createBullet s)" by (simp add: session_rel_def)
    moreover from createTargets_session [OF ok, of hbb "\<lambda>g x. g"]
    have "\<exists>s'. createTargets s = Inr s' \<and> counters_ok s'"
      by (auto simp: session_rel_def)
    moreover from draw_session [OF ok, of hbb "\<lambda>g x. g"]
    have "\<exists>s'. draw hbb s = Inr s' \<and> counters_ok s'"
      by (auto simp: session_rel_def)
    ultimately show ?thesis by (simp add: counters_ok_def)
  qed
  from new rest show ?thesis by blast
qed

theorem counters_invariant_witness:
  "bulletsLen (ex_field ex_bullets ex_targets) = 3 \<and>
   targetsLen (ex_field ex_bullets ex_targets) = 2 \<and>
   bulletsLen (createBullet (ex_field ex_bullets ex_targets)) = 4 \<and>
   (\<exists>s'. createTargets (ex_field ex_bullets ex_targets) = Inr s' \<and>
      targetsLen s' = length (targets s') \<and> targetsLen s' = 14) \<and>
   (\<exists>s'. draw overlaps (ex_field ex_bullets ex_targets) = Inr s' \<and>
      bulletsLen s' = length (bullets s') \<and> targetsLen s' = length (targets s'))"
proof -
  let ?s = "ex_field ex_bullets ex_targets"
  have h: "bulletsLen ?s = length (bullets ?s) \<and> targetsLen ?s = length (targets ?s)"
    by (simp add: ex_field_def)
  have a: "bulletsLen ?s = 3" "targetsLen ?s = 2" "bulletsLen (createBullet ?s) = 4"
    by (simp_all add: ex_field_def ex_bullets_def ex_targets_def createBullet_def Let_def)
  have b: "case createTargets ?s of Inr s' \<Rightarrow> targetsLen s' = 14 | Inl e \<Rightarrow> False"
    by (simp add: eval_defs ex_targets_def)
  from counters_invariant [of overlaps ?s] h
  have "(\<exists>s'. createTargets ?s = Inr s' \<and>
          bulletsLen s' = length (bullets s') \<and> targetsLen s' = length (targets s'))"
    and c: "(\<exists>s'. draw overlaps ?s = Inr s' \<and>
          bulletsLen s' = length (bullets s') \<and> targetsLen s' = length (targets s'))"
    by blast+
  with b have "\<exists>s'. createTargets ?s = Inr s' \<and>
      targetsLen s' = length (targets s') \<and> targetsLen s' = 14"
    by auto
  with a c show ?thesis by simp
qed

end
